theory Spec2Isabelle
  imports Main "HOL-Library.AList" "HOL-Library.List_Lexorder" "HOL-Library.Char_ord"
begin

section \<open>Type terms and the unifier (backend/unify.py)\<close>

text \<open>
  The frozen dataclasses \<^verbatim>\<open>Var\<close>, \<^verbatim>\<open>Num\<close>, \<^verbatim>\<open>Bool\<close>, \<^verbatim>\<open>List\<close> and \<^verbatim>\<open>App\<close> form the algebra of
  type terms. Equality of frozen dataclasses is structural, as is HOL equality on a datatype.
\<close>

datatype tm = Var string | Num | Bool | List tm | App tm tm

type_synonym equation = "tm \<times> tm"

text \<open>The exception classes that the backend raises or that Python raises on its behalf.\<close>

datatype error =
    NoSolutionError | ValueError | TypeError | KeyError | IndexError | AttributeError
  | AssertionError | ZeroDivisionError | ModeError | NoneAsFunArg | AlgotRuntimeError

text \<open>\<^verbatim>\<open>isinstance(t, get_args(Fun))\<close>: every term that is not a variable.\<close>

fun is_Fun :: "tm \<Rightarrow> bool" where
  "is_Fun (Var _) = False"
| "is_Fun _ = True"

fun is_Var :: "tm \<Rightarrow> bool" where
  "is_Var (Var _) = True"
| "is_Var _ = False"

fun is_App :: "tm \<Rightarrow> bool" where
  "is_App (App _ _) = True"
| "is_App _ = False"

text \<open>
  \<^verbatim>\<open>free_variables\<close> returns a Python set of \<^verbatim>\<open>Var\<close> objects; a variable is determined by its
  name, so the model returns the set of names.
\<close>

fun free_variables :: "tm \<Rightarrow> string set" where
  "free_variables (Var x) = {x}"
| "free_variables Num = {}"
| "free_variables Bool = {}"
| "free_variables (List a) = free_variables a"
| "free_variables (App a b) = free_variables a \<union> free_variables b"

fun free_variables_equations :: "equation list \<Rightarrow> string set" where
  "free_variables_equations [] = {}"
| "free_variables_equations ((lhs, rhs) # equations) =
     (free_variables lhs \<union> free_variables rhs) \<union> free_variables_equations equations"

fun substitute_term :: "string \<Rightarrow> tm \<Rightarrow> tm \<Rightarrow> tm" where
  "substitute_term x rt (Var y) = (if x = y then rt else Var y)"
| "substitute_term x rt Num = Num"
| "substitute_term x rt Bool = Bool"
| "substitute_term x rt (List a) = List (substitute_term x rt a)"
| "substitute_term x rt (App a b) = App (substitute_term x rt a) (substitute_term x rt b)"

text \<open>Python's \<^verbatim>\<open>str\<close> of an integer, as used by the f-strings that build fresh names.\<close>

definition digit_char :: "nat \<Rightarrow> char" where
  "digit_char d = ''0123456789'' ! d"

fun str_nat :: "nat \<Rightarrow> string" where
  "str_nat n = (if n < 10 then [digit_char n] else str_nat (n div 10) @ [digit_char (n mod 10)])"

declare str_nat.simps [simp del]

definition str_int :: "int \<Rightarrow> string" where
  "str_int i = (if i < 0 then CHR ''-'' # str_nat (nat (- i)) else str_nat (nat i))"

text \<open>
  The body of the loop \<^verbatim>\<open>for free_variable in work_set\<close> of \<^verbatim>\<open>alpha_conversion\<close>, run over
  the elements of the work set in the order in which the iteration visits them.
\<close>

fun alpha_loop :: "string list \<Rightarrow> tm \<Rightarrow> string \<Rightarrow> int \<Rightarrow> tm \<times> int" where
  "alpha_loop [] x name offset = (x, offset)"
| "alpha_loop (free_variable # work) x name offset =
     alpha_loop work (substitute_term free_variable (Var (name @ str_int offset)) x) name (offset + 1)"

text \<open>
  Python visits the elements of a set in an order fixed by their hashes, and string hashes are
  randomised per process; the docstring of \<^verbatim>\<open>alpha_conversion\<close> says so ("there is no guaranteed
  order"). The order is therefore a parameter \<open>itr\<close> of the model: it maps a set to the list in
  which a \<^verbatim>\<open>for\<close> loop visits its elements. \<open>iteration_order\<close> states what every such order
  satisfies.
\<close>

definition iteration_order :: "(string set \<Rightarrow> string list) \<Rightarrow> bool" where
  "iteration_order itr \<longleftrightarrow> (\<forall>S. finite S \<longrightarrow> set (itr S) = S \<and> distinct (itr S))"

definition alpha_conversion ::
  "(string set \<Rightarrow> string list) \<Rightarrow> tm \<Rightarrow> string \<Rightarrow> int \<Rightarrow> error + (tm \<times> int)" where
  "alpha_conversion itr x name offset =
     (if \<not> offset \<ge> 0 then Inl ValueError
      else Inr (alpha_loop (itr (free_variables x)) x name offset))"

definition substitute_equation :: "string \<Rightarrow> tm \<Rightarrow> equation \<Rightarrow> equation" where
  "substitute_equation x rt eq = (substitute_term x rt (fst eq), substitute_term x rt (snd eq))"

fun substitute_list :: "string \<Rightarrow> tm \<Rightarrow> equation list \<Rightarrow> equation list" where
  "substitute_list x rt [] = []"
| "substitute_list x rt (eq # c) = substitute_equation x rt eq # substitute_list x rt c"

text \<open>Leading underscores of private Python names are dropped: \<^verbatim>\<open>_decompose_functions\<close> etc.\<close>

fun decompose_functions :: "tm \<Rightarrow> tm \<Rightarrow> error + equation list" where
  "decompose_functions Num Num = Inr []"
| "decompose_functions Bool Bool = Inr []"
| "decompose_functions (List a) (List b) = Inr [(a, b)]"
| "decompose_functions (App a b) (App c d) = Inr [(a, c), (b, d)]"
| "decompose_functions _ _ = Inl NoSolutionError"

text \<open>
  \<^verbatim>\<open>_apply_rule(equations, idx)\<close> pops the equation at \<open>idx\<close>, tries the rules in the order
  delete, decompose/conflict, swap, eliminate, check, and otherwise re-inserts the equation at
  \<open>idx\<close>, which restores the list.
\<close>

definition apply_rule :: "equation list \<Rightarrow> nat \<Rightarrow> error + (equation list \<times> bool)" where
  "apply_rule equations idx =
     (if idx \<ge> length equations then Inl IndexError
      else
        let lhs = fst (equations ! idx);
            rhs = snd (equations ! idx);
            rest = take idx equations @ drop (Suc idx) equations
        in
          if lhs = rhs then Inr (rest, True)
          else if is_Fun lhs \<and> is_Fun rhs then
            (case decompose_functions lhs rhs of
               Inl e \<Rightarrow> Inl e
             | Inr d \<Rightarrow> Inr (rest @ d, True))
          else if is_Fun lhs \<and> is_Var rhs then Inr (rest @ [(rhs, lhs)], True)
          else
            (case lhs of
               Var x \<Rightarrow>
                 if x \<notin> free_variables rhs \<and> x \<in> free_variables_equations rest
                 then Inr (substitute_list x rhs rest @ [(lhs, rhs)], True)
                 else if is_Fun rhs \<and> x \<in> free_variables rhs then Inl NoSolutionError
                 else Inr (equations, False)
             | _ \<Rightarrow> Inr (equations, False)))"

fun check_type :: "tm \<Rightarrow> error + unit" where
  "check_type (Var _) = Inr ()"
| "check_type Num = Inr ()"
| "check_type Bool = Inr ()"
| "check_type (List Num) = Inr ()"
| "check_type (List Bool) = Inr ()"
| "check_type (List (Var _)) = Inr ()"
| "check_type (List _) = Inl ValueError"
| "check_type (App a b) = (case check_type a of Inl e \<Rightarrow> Inl e | Inr _ \<Rightarrow> check_type b)"

definition check_equation :: "equation \<Rightarrow> error + unit" where
  "check_equation eq = (case check_type (fst eq) of Inl e \<Rightarrow> Inl e | Inr _ \<Rightarrow> check_type (snd eq))"

fun check_list :: "equation list \<Rightarrow> error + unit" where
  "check_list [] = Inr ()"
| "check_list (eq # c) = (case check_equation eq of Inl e \<Rightarrow> Inl e | Inr _ \<Rightarrow> check_list c)"

text \<open>
  The loop \<^verbatim>\<open>for idx in range(len(equations))\<close> of \<^verbatim>\<open>unify\<close>: the first index at which a rule
  applies yields the rewritten list; a rule that raises ends the loop with its error.
\<close>

fun try_rules :: "equation list \<Rightarrow> nat list \<Rightarrow> error + equation list option" where
  "try_rules equations [] = Inr None"
| "try_rules equations (idx # idxs) =
     (case apply_rule equations idx of
        Inl e \<Rightarrow> Inl e
      | Inr (result, applied) \<Rightarrow>
          if applied then Inr (Some result) else try_rules equations idxs)"

text \<open>
  \<^verbatim>\<open>unify\<close> recurses for as long as some rule applies. The model is a partial function: \<open>None\<close>
  stands for a run that does not return.
\<close>

partial_function (option) unify :: "equation list \<Rightarrow> (error + equation list) option" where
  "unify equations =
     (if equations = [] then Some (Inr [])
      else
        (case try_rules equations [0..<length equations] of
           Inl e \<Rightarrow> Some (Inl e)
         | Inr (Some result) \<Rightarrow> unify result
         | Inr None \<Rightarrow>
             (case check_list equations of
                Inl e \<Rightarrow> Some (Inl e)
              | Inr _ \<Rightarrow> Some (Inr equations))))"

section \<open>Signatures of the built-in functions (backend/builtin\_function.py, backend/helpers.py)\<close>

definition ARGUMENT_TYPE_PREFIX :: string where
  "ARGUMENT_TYPE_PREFIX = ''z''"

definition FUNCTION_TYPE_PREFIX :: string where
  "FUNCTION_TYPE_PREFIX = ''y''"

definition type_variable_0 :: tm where
  "type_variable_0 = Var (FUNCTION_TYPE_PREFIX @ ''0'')"

definition list_type_variable_0 :: tm where
  "list_type_variable_0 = List type_variable_0"

definition type_variable_1 :: tm where
  "type_variable_1 = Var (FUNCTION_TYPE_PREFIX @ ''1'')"

definition list_type_variable_1 :: tm where
  "list_type_variable_1 = List type_variable_1"

text \<open>
  The class attributes are dictionaries; Python dictionaries keep insertion order, and the
  constructor of \<^verbatim>\<open>State\<close> iterates over \<^verbatim>\<open>supported_operations\<close>, so they are association lists.
\<close>

definition arithmetic_operations :: "(string \<times> tm) list" where
  "arithmetic_operations =
     map (\<lambda>name. (name, App Num (App Num Num))) [''+'', ''-'', ''*'', ''/'', ''//'', ''%'']"

definition comparison_operations :: "(string \<times> tm) list" where
  "comparison_operations =
     map (\<lambda>name. (name, App Num (App Num Bool))) [''=='', ''!='', ''>'', ''<'', ''>='', ''<='']"

definition boolean_operations :: "(string \<times> tm) list" where
  "boolean_operations =
     [(''and'', App Bool (App Bool Bool)),
      (''or'', App Bool (App Bool Bool)),
      (''not'', App Bool Bool)]"

definition list_operations :: "(string \<times> tm) list" where
  "list_operations =
     [(''len'', App list_type_variable_0 Num),
      (''head'', App list_type_variable_0 type_variable_0),
      (''last'', App list_type_variable_0 type_variable_0),
      (''tail'', App list_type_variable_0 list_type_variable_0),
      (''init'', App list_type_variable_0 list_type_variable_0),
      (''concat'', App list_type_variable_0 (App list_type_variable_0 list_type_variable_0)),
      (''map'', App (App type_variable_0 type_variable_1)
                  (App list_type_variable_0 list_type_variable_1)),
      (''filter'', App (App type_variable_0 Bool)
                     (App list_type_variable_0 list_type_variable_1)),
      (''cons'', App type_variable_0 (App list_type_variable_0 list_type_variable_0))]"

text \<open>The four dictionaries have disjoint keys, so their union \<^verbatim>\<open>|\<close> is the concatenation.\<close>

definition supported_operations :: "(string \<times> tm) list" where
  "supported_operations =
     arithmetic_operations @ comparison_operations @ boolean_operations @ list_operations"

section \<open>Values, branch trees and functions (backend/helper\_type.py, tree.py, function.py)\<close>

text \<open>
  An instruction is \<^verbatim>\<open>tuple[str, Expr] | tuple[None, Stmt]\<close>: an optional temporary name and a
  list of names. A \<^verbatim>\<open>Tree\<close> node has a path, a block of instructions and two optional
  children.
\<close>

type_synonym expr = "string list"

type_synonym instruction = "string option \<times> expr"

datatype tree = Tree (path: "string list") (block: "instruction list")
  (true: "tree option") (false: "tree option")

text \<open>
  Python floats are not modelled: they are an opaque type, and the operators of the language
  that compute with numbers are parameters of the model (see \<open>env\<close> below).
\<close>

typedecl pyfloat

text \<open>
  \<^verbatim>\<open>Value = PValue | list[PValue] | Function\<close>, and \<^verbatim>\<open>None\<close> for the unknown result of an
  incomplete recursion. The annotation is not enforced by Python, and \<^verbatim>\<open>map\<close> appends whatever
  the mapped function returns, so a list holds values. A \<^verbatim>\<open>Function\<close> object is either a
  \<^verbatim>\<open>BuiltinFunction\<close> (operator name, signature, unique id) or a \<^verbatim>\<open>CustomFunction\<close>, which
  \<^verbatim>\<open>Demonstration.generate_function\<close> constructs from a signature, the branch tree, the
  constants and a unique id.
\<close>

datatype "value" =
    VNone | VInt int | VFloat pyfloat | VBool bool | VList "value list" | VFun func
and func =
    BuiltinFunction string tm int
  | CustomFunction tm tree "(string \<times> value) list" int

fun function_signature :: "func \<Rightarrow> tm" where
  "function_signature (BuiltinFunction _ s _) = s"
| "function_signature (CustomFunction s _ _ _) = s"

fun unique_id :: "func \<Rightarrow> int" where
  "unique_id (BuiltinFunction _ _ u) = u"
| "unique_id (CustomFunction _ _ _ u) = u"

text \<open>
  What the model takes from outside the sources at hand:
  \<^item> \<open>itr\<close>: the order in which a loop visits the elements of a set;
  \<^item> \<open>py_binop\<close>: Python's binary operators \<^verbatim>\<open>+ - * / // % == != > < >= <=\<close> on two values, which
    return a value or raise (\<^verbatim>\<open>ZeroDivisionError\<close>, \<^verbatim>\<open>TypeError\<close>);
  \<^item> \<open>py_truth\<close>: the truth value Python gives a value;
  \<^item> \<open>py_eq\<close>: Python's \<^verbatim>\<open>==\<close> on two values, as a truth value;
  \<^item> \<open>custom_compute\<close>: \<^verbatim>\<open>CustomFunction.compute\<close>, whose module (backend/custom\_function.py)
    is not among the sources; \<open>None\<close> stands for a call that does not return.
\<close>

record env =
  itr :: "string set \<Rightarrow> string list"
  py_binop :: "string \<Rightarrow> value \<Rightarrow> value \<Rightarrow> error + value"
  py_truth :: "value \<Rightarrow> bool"
  py_eq :: "value \<Rightarrow> value \<Rightarrow> bool"
  custom_compute :: "func \<Rightarrow> value list \<Rightarrow> (error + value) option"

section \<open>Typing of values (backend/helpers.py)\<close>

text \<open>A value that no pattern of \<^verbatim>\<open>infer_value_type\<close> matches runs into \<^verbatim>\<open>assert False\<close>.\<close>

fun infer_value_type :: "value \<Rightarrow> error + tm" where
  "infer_value_type (VBool _) = Inr Bool"
| "infer_value_type (VInt _) = Inr Num"
| "infer_value_type (VFloat _) = Inr Num"
| "infer_value_type (VList []) = Inr (List (Var ''a''))"
| "infer_value_type (VList (x # _)) =
     (case infer_value_type x of Inl e \<Rightarrow> Inl e | Inr t \<Rightarrow> Inr (List t))"
| "infer_value_type (VFun f) = Inr (function_signature f)"
| "infer_value_type VNone = Inl AssertionError"

definition get_supported_element_types :: "value \<Rightarrow> error + tm set" where
  "get_supported_element_types v =
     (case infer_value_type v of
        Inl e \<Rightarrow> Inl e
      | Inr (List (Var _)) \<Rightarrow> Inr {Num, Bool}
      | Inr (List Num) \<Rightarrow> Inr {Num}
      | Inr (List Bool) \<Rightarrow> Inr {Bool}
      | Inr _ \<Rightarrow> Inr {})"

fun combine_into_app :: "tm list \<Rightarrow> error + tm" where
  "combine_into_app [] = Inl ValueError"
| "combine_into_app [x] = Inr x"
| "combine_into_app [x, y] = Inr (App x y)"
| "combine_into_app (x # others) =
     (case combine_into_app others of Inl e \<Rightarrow> Inl e | Inr t \<Rightarrow> Inr (App x t))"

text \<open>The list comprehension \<^verbatim>\<open>[infer_value_type(arg) for arg in args]\<close>.\<close>

fun infer_value_types :: "value list \<Rightarrow> error + tm list" where
  "infer_value_types [] = Inr []"
| "infer_value_types (arg # args) =
     (case infer_value_type arg of
        Inl e \<Rightarrow> Inl e
      | Inr t \<Rightarrow> (case infer_value_types args of Inl e \<Rightarrow> Inl e | Inr ts \<Rightarrow> Inr (t # ts)))"

text \<open>
  The loop of \<^verbatim>\<open>infer_argument_signature\<close> that alpha-converts every argument type with a
  shared offset.
\<close>

fun alpha_convert_all ::
  "(string set \<Rightarrow> string list) \<Rightarrow> tm list \<Rightarrow> string \<Rightarrow> int \<Rightarrow> error + tm list" where
  "alpha_convert_all it [] name offset = Inr []"
| "alpha_convert_all it (t # ts) name offset =
     (case alpha_conversion it t name offset of
        Inl e \<Rightarrow> Inl e
      | Inr (t', offset') \<Rightarrow>
          (case alpha_convert_all it ts name offset' of
             Inl e \<Rightarrow> Inl e
           | Inr ts' \<Rightarrow> Inr (t' # ts')))"

definition infer_argument_signature ::
  "(string set \<Rightarrow> string list) \<Rightarrow> value list \<Rightarrow> error + tm" where
  "infer_argument_signature it args =
     (case infer_value_types args of
        Inl e \<Rightarrow> Inl e
      | Inr arg_types \<Rightarrow>
          (case alpha_convert_all it arg_types ARGUMENT_TYPE_PREFIX 0 of
             Inl e \<Rightarrow> Inl e
           | Inr arg_types' \<Rightarrow> combine_into_app arg_types'))"

fun decompose_term :: "tm \<Rightarrow> tm list" where
  "decompose_term (App a b) = [] @ [a] @ decompose_term b"
| "decompose_term t = [] @ [t]"

definition drop_last_type_app :: "tm \<Rightarrow> error + tm" where
  "drop_last_type_app t = combine_into_app (butlast (decompose_term t))"

section \<open>The call contract (backend/function.py)\<close>

text \<open>The loop that binds the arguments to \<^verbatim>\<open>in0\<close>, \<^verbatim>\<open>in1\<close>, ...\<close>

fun bind_inputs :: "int \<Rightarrow> value list \<Rightarrow> (string \<times> value) list" where
  "bind_inputs i [] = []"
| "bind_inputs i (argument # args) = (''in'' @ str_int i, argument) # bind_inputs (i + 1) args"

text \<open>
  \<^verbatim>\<open>Function.input_context\<close>. Only \<^verbatim>\<open>NoSolutionError\<close> is turned into \<^verbatim>\<open>TypeError\<close>; the
  \<^verbatim>\<open>ValueError\<close> of the support filter passes through. The context is a dictionary from the
  names \<^verbatim>\<open>in0\<close>, \<^verbatim>\<open>in1\<close>, ... to the arguments.
\<close>

definition input_context ::
  "(string set \<Rightarrow> string list) \<Rightarrow> func \<Rightarrow> value list \<Rightarrow>
     (error + (string \<times> value) list) option" where
  "input_context it f args =
     (if VNone \<in> set args then Some (Inl NoneAsFunArg)
      else if \<not> is_App (function_signature f) then Some (Inr [])
      else
        (case infer_argument_signature it args of
           Inl e \<Rightarrow> Some (Inl e)
         | Inr argument_signature \<Rightarrow>
             (case drop_last_type_app (function_signature f) of
                Inl e \<Rightarrow> Some (Inl e)
              | Inr function_input_signature \<Rightarrow>
                  (case unify [(argument_signature, function_input_signature)] of
                     None \<Rightarrow> None
                   | Some (Inl e) \<Rightarrow> Some (Inl (if e = NoSolutionError then TypeError else e))
                   | Some (Inr _) \<Rightarrow> Some (Inr (bind_inputs 0 args))))))"

section \<open>Built-in functions (backend/builtin\_function.py)\<close>

text \<open>\<^verbatim>\<open>context[name]\<close>.\<close>

definition lookup :: "(string \<times> 'a) list \<Rightarrow> string \<Rightarrow> error + 'a" where
  "lookup d name = (case map_of d name of None \<Rightarrow> Inl KeyError | Some v \<Rightarrow> Inr v)"

text \<open>
  \<^verbatim>\<open>a + b\<close>: concatenation on two lists, the numeric operator otherwise. The three division
  operators run inside \<^verbatim>\<open>try ... except ZeroDivisionError\<close>.
\<close>

definition py_plus :: "env \<Rightarrow> value \<Rightarrow> value \<Rightarrow> error + value" where
  "py_plus E a b =
     (case (a, b) of
        (VList xs, VList ys) \<Rightarrow> Inr (VList (xs @ ys))
      | _ \<Rightarrow> py_binop E ''+'' a b)"

definition guarded_division :: "env \<Rightarrow> string \<Rightarrow> value \<Rightarrow> value \<Rightarrow> error + value" where
  "guarded_division E name a b =
     (case py_binop E name a b of
        Inl e \<Rightarrow> Inl (if e = ZeroDivisionError then AlgotRuntimeError else e)
      | Inr v \<Rightarrow> Inr v)"

text \<open>
  The cases of \<^verbatim>\<open>BuiltinFunction.compute\<close> that call no other function. Indexing an empty list
  raises \<^verbatim>\<open>IndexError\<close>, which \<^verbatim>\<open>head\<close> and \<^verbatim>\<open>last\<close> turn into \<^verbatim>\<open>AlgotRuntimeError\<close>; the slices
  \<^verbatim>\<open>[1:]\<close> and \<^verbatim>\<open>[:-1]\<close> of \<^verbatim>\<open>tail\<close> and \<^verbatim>\<open>init\<close> never raise \<^verbatim>\<open>IndexError\<close>. Subscripting or taking
  the length of a value that is not a list raises \<^verbatim>\<open>TypeError\<close>.
\<close>

definition binary :: "(string \<times> value) list \<Rightarrow> (value \<Rightarrow> value \<Rightarrow> error + value) \<Rightarrow> error + value" where
  "binary context f =
     (case lookup context ''in0'' of
        Inl e \<Rightarrow> Inl e
      | Inr a \<Rightarrow> (case lookup context ''in1'' of Inl e \<Rightarrow> Inl e | Inr b \<Rightarrow> f a b))"

definition unary :: "(string \<times> value) list \<Rightarrow> (value \<Rightarrow> error + value) \<Rightarrow> error + value" where
  "unary context f = (case lookup context ''in0'' of Inl e \<Rightarrow> Inl e | Inr a \<Rightarrow> f a)"

definition compute_simple :: "env \<Rightarrow> string \<Rightarrow> (string \<times> value) list \<Rightarrow> error + value" where
  "compute_simple E builtin context =
     (if builtin = ''+'' then binary context (py_plus E)
      else if builtin \<in> {''-'', ''*''} then binary context (py_binop E builtin)
      else if builtin \<in> {''/'', ''//'', ''%''} then binary context (guarded_division E builtin)
      else if builtin \<in> {''=='', ''!='', ''>'', ''<'', ''>='', ''<=''} then
        binary context (py_binop E builtin)
      else if builtin = ''and'' then
        unary context (\<lambda>a. if py_truth E a then lookup context ''in1'' else Inr a)
      else if builtin = ''or'' then
        unary context (\<lambda>a. if py_truth E a then Inr a else lookup context ''in1'')
      else if builtin = ''not'' then unary context (\<lambda>a. Inr (VBool (\<not> py_truth E a)))
      else if builtin = ''len'' then
        unary context (\<lambda>a. case a of VList xs \<Rightarrow> Inr (VInt (int (length xs))) | _ \<Rightarrow> Inl TypeError)
      else if builtin = ''head'' then
        unary context (\<lambda>a. case a of
           VList [] \<Rightarrow> Inl AlgotRuntimeError
         | VList (x # _) \<Rightarrow> Inr x
         | _ \<Rightarrow> Inl TypeError)
      else if builtin = ''last'' then
        unary context (\<lambda>a. case a of
           VList [] \<Rightarrow> Inl AlgotRuntimeError
         | VList xs \<Rightarrow> Inr (last xs)
         | _ \<Rightarrow> Inl TypeError)
      else if builtin = ''tail'' then
        unary context (\<lambda>a. case a of VList xs \<Rightarrow> Inr (VList (drop 1 xs)) | _ \<Rightarrow> Inl TypeError)
      else if builtin = ''init'' then
        unary context (\<lambda>a. case a of VList xs \<Rightarrow> Inr (VList (butlast xs)) | _ \<Rightarrow> Inl TypeError)
      else if builtin = ''concat'' then binary context (py_plus E)
      else if builtin = ''cons'' then
        binary context (\<lambda>a b. case b of VList ys \<Rightarrow> Inr (VList (a # ys)) | _ \<Rightarrow> Inl TypeError)
      else Inl AssertionError)"

text \<open>Every value of the context that \<^verbatim>\<open>input_context\<close> returns is one of the arguments.\<close>

lemma bind_inputs_values: "map_of (bind_inputs i args) name = Some v \<Longrightarrow> v \<in> set args"
  by (induction args arbitrary: i) (auto split: if_splits)

lemma input_context_values:
  assumes "input_context it f args = Some (Inr context)" "lookup context name = Inr v"
  shows "v \<in> set args"
proof -
  from assms(2) have m: "map_of context name = Some v"
    by (auto simp: lookup_def split: option.splits)
  from assms(1) have "context = [] \<or> context = bind_inputs 0 args"
    by (auto simp: input_context_def split: if_splits sum.splits option.splits)
  with m show ?thesis by (auto dest: bind_inputs_values)
qed

lemma size_list_member: "x \<in> set xs \<Longrightarrow> f x < size_list f xs"
  by (induction xs) auto

lemma input_context_size:
  assumes "input_context it f args = Some (Inr context)" "lookup context name = Inr (VList xs)"
  shows "size_list size xs + 1 < size_list size args"
  using size_list_member[OF input_context_values[OF assms], of size] by simp

text \<open>
  \<^verbatim>\<open>compute\<close>, with the loops of \<^verbatim>\<open>map\<close> and \<^verbatim>\<open>filter\<close> over the elements of \<^verbatim>\<open>context["in1"]\<close>;
  each round looks \<^verbatim>\<open>context["in0"]\<close> up and calls its \<^verbatim>\<open>compute\<close> (a value without that method
  raises \<^verbatim>\<open>AttributeError\<close>). A \<^verbatim>\<open>CustomFunction\<close> computes by its own, absent, method.
\<close>

function (sequential)
  compute :: "env \<Rightarrow> func \<Rightarrow> value list \<Rightarrow> (error + value) option" and
  map_elements :: "env \<Rightarrow> (string \<times> value) list \<Rightarrow> value list \<Rightarrow> (error + value list) option" and
  filter_elements :: "env \<Rightarrow> (string \<times> value) list \<Rightarrow> value list \<Rightarrow> (error + value list) option"
where
  "compute E (CustomFunction s t c u) args = custom_compute E (CustomFunction s t c u) args"
| "compute E (BuiltinFunction builtin s u) args =
     (case input_context (itr E) (BuiltinFunction builtin s u) args of
        None \<Rightarrow> None
      | Some (Inl e) \<Rightarrow> Some (Inl e)
      | Some (Inr context) \<Rightarrow>
          if builtin = ''map'' then
            (case lookup context ''in1'' of
               Inl e \<Rightarrow> Some (Inl e)
             | Inr (VList xs) \<Rightarrow>
                 (case map_elements E context xs of
                    None \<Rightarrow> None
                  | Some (Inl e) \<Rightarrow> Some (Inl e)
                  | Some (Inr result) \<Rightarrow> Some (Inr (VList result)))
             | Inr _ \<Rightarrow> Some (Inl TypeError))
          else if builtin = ''filter'' then
            (case lookup context ''in1'' of
               Inl e \<Rightarrow> Some (Inl e)
             | Inr (VList xs) \<Rightarrow>
                 (case filter_elements E context xs of
                    None \<Rightarrow> None
                  | Some (Inl e) \<Rightarrow> Some (Inl e)
                  | Some (Inr result) \<Rightarrow> Some (Inr (VList result)))
             | Inr _ \<Rightarrow> Some (Inl TypeError))
          else Some (compute_simple E builtin context))"
| "map_elements E context [] = Some (Inr [])"
| "map_elements E context (element # rest) =
     (case lookup context ''in0'' of
        Inl e \<Rightarrow> Some (Inl e)
      | Inr (VFun g) \<Rightarrow>
          (case compute E g [element] of
             None \<Rightarrow> None
           | Some (Inl e) \<Rightarrow> Some (Inl e)
           | Some (Inr r) \<Rightarrow>
               (case map_elements E context rest of
                  None \<Rightarrow> None
                | Some (Inl e) \<Rightarrow> Some (Inl e)
                | Some (Inr result) \<Rightarrow> Some (Inr (r # result))))
      | Inr _ \<Rightarrow> Some (Inl AttributeError))"
| "filter_elements E context [] = Some (Inr [])"
| "filter_elements E context (element # rest) =
     (case lookup context ''in0'' of
        Inl e \<Rightarrow> Some (Inl e)
      | Inr (VFun g) \<Rightarrow>
          (case compute E g [element] of
             None \<Rightarrow> None
           | Some (Inl e) \<Rightarrow> Some (Inl e)
           | Some (Inr r) \<Rightarrow>
               (case filter_elements E context rest of
                  None \<Rightarrow> None
                | Some (Inl e) \<Rightarrow> Some (Inl e)
                | Some (Inr result) \<Rightarrow>
                    Some (Inr (if py_truth E r then element # result else result))))
      | Inr _ \<Rightarrow> Some (Inl AttributeError))"
  by pat_completeness auto
termination
  by (relation "measure (\<lambda>x. case x of
        Inl (E, f, args) \<Rightarrow> size_list size args
      | Inr (Inl (E, c, xs)) \<Rightarrow> size_list size xs + 1
      | Inr (Inr (E, c, xs)) \<Rightarrow> size_list size xs + 1)")
    (auto dest: input_context_size)

text \<open>
  An environment for concrete runs: sets are visited in sorted order, the numeric operators are
  not available, and every call of a custom function is rejected with \<^verbatim>\<open>TypeError\<close>.
\<close>

definition example_env :: env where
  "example_env =
     \<lparr>itr = sorted_list_of_set,
      py_binop = (\<lambda>_ _ _. Inl TypeError),
      py_truth = (\<lambda>v. case v of VBool b \<Rightarrow> b | VInt i \<Rightarrow> i \<noteq> 0 | VList xs \<Rightarrow> xs \<noteq> []
                       | VNone \<Rightarrow> False | _ \<Rightarrow> True),
      py_eq = (=),
      custom_compute = (\<lambda>_ _. Some (Inl TypeError))\<rparr>"


section \<open>Python list primitives\<close>

text \<open>
  Indexing, slicing, insertion and deletion on Python lists accept negative indices, which count
  from the end; indexing and deletion raise \<^verbatim>\<open>IndexError\<close> out of range, slicing and insertion
  clamp.
\<close>

definition py_position :: "'a list \<Rightarrow> int \<Rightarrow> error + nat" where
  "py_position xs i =
     (let n = int (length xs); j = (if i < 0 then i + n else i)
      in if 0 \<le> j \<and> j < n then Inr (nat j) else Inl IndexError)"

definition py_clamp :: "'a list \<Rightarrow> int \<Rightarrow> nat" where
  "py_clamp xs i =
     (let n = int (length xs); j = (if i < 0 then i + n else i)
      in if j < 0 then 0 else if j > n then length xs else nat j)"

definition py_getitem :: "'a list \<Rightarrow> int \<Rightarrow> error + 'a" where
  "py_getitem xs i = (case py_position xs i of Inl e \<Rightarrow> Inl e | Inr j \<Rightarrow> Inr (xs ! j))"

definition py_setitem :: "'a list \<Rightarrow> int \<Rightarrow> 'a \<Rightarrow> error + 'a list" where
  "py_setitem xs i v = (case py_position xs i of Inl e \<Rightarrow> Inl e | Inr j \<Rightarrow> Inr (xs[j := v]))"

definition py_pop :: "'a list \<Rightarrow> int \<Rightarrow> error + 'a list" where
  "py_pop xs i =
     (case py_position xs i of Inl e \<Rightarrow> Inl e | Inr j \<Rightarrow> Inr (take j xs @ drop (Suc j) xs))"

definition py_insert :: "'a list \<Rightarrow> int \<Rightarrow> 'a \<Rightarrow> 'a list" where
  "py_insert xs i v = (let j = py_clamp xs i in take j xs @ [v] @ drop j xs)"

definition py_slice_to :: "'a list \<Rightarrow> int \<Rightarrow> 'a list" where
  "py_slice_to xs i = take (py_clamp xs i) xs"

definition py_slice_from :: "'a list \<Rightarrow> int \<Rightarrow> 'a list" where
  "py_slice_from xs i = drop (py_clamp xs i) xs"

section \<open>Registers (backend/registers.py)\<close>

text \<open>
  Dictionaries keep insertion order (\<^verbatim>\<open>get_names\<close> lists the keys), so they are association
  lists: \<open>AList.update\<close> is \<^verbatim>\<open>d[k] = v\<close>, \<open>AList.delete\<close> is \<^verbatim>\<open>del d[k]\<close>, \<open>lookup\<close> is \<^verbatim>\<open>d[k]\<close>.
  A method that raises leaves the object as it is when it raised: every operation returns the
  object together with its result or error.
\<close>

definition check_value_type :: "value \<Rightarrow> error + unit" where
  "check_value_type v =
     (case infer_value_type v of
        Inl e \<Rightarrow> Inl e
      | Inr Num \<Rightarrow> Inr ()
      | Inr Bool \<Rightarrow> Inr ()
      | Inr _ \<Rightarrow> Inl TypeError)"

record registers =
  reg_dict :: "(string \<times> value) list"
  reg_next_id :: int

definition registers_init :: registers where
  "registers_init = \<lparr>reg_dict = [], reg_next_id = 0\<rparr>"

definition is_valid_register :: "registers \<Rightarrow> string \<Rightarrow> bool" where
  "is_valid_register R register \<longleftrightarrow> register \<in> fst ` set (reg_dict R)"

definition create_register :: "registers \<Rightarrow> value \<Rightarrow> (error + string) \<times> registers" where
  "create_register R v =
     (case check_value_type v of
        Inl e \<Rightarrow> (Inl e, R)
      | Inr _ \<Rightarrow>
          (let register_name = ''r'' @ str_int (reg_next_id R)
           in (Inr register_name,
               R\<lparr>reg_dict := AList.update register_name v (reg_dict R),
                 reg_next_id := reg_next_id R + 1\<rparr>)))"

definition get_register :: "registers \<Rightarrow> string \<Rightarrow> error + value" where
  "get_register R register = lookup (reg_dict R) register"

definition delete_register :: "registers \<Rightarrow> string \<Rightarrow> (error + unit) \<times> registers" where
  "delete_register R register =
     (if register \<in> fst ` set (reg_dict R)
      then (Inr (), R\<lparr>reg_dict := AList.delete register (reg_dict R)\<rparr>)
      else (Inl KeyError, R))"

definition update_register :: "registers \<Rightarrow> string \<Rightarrow> value \<Rightarrow> (error + unit) \<times> registers" where
  "update_register R register v =
     (if \<not> is_valid_register R register then (Inl ValueError, R)
      else
        (case check_value_type v of
           Inl e \<Rightarrow> (Inl e, R)
         | Inr _ \<Rightarrow> (Inr (), R\<lparr>reg_dict := AList.update register v (reg_dict R)\<rparr>)))"

section \<open>Lists (backend/lists.py), on values\<close>

text \<open>\<^verbatim>\<open>all_equal\<close> of helpers.py: all elements of the iterable are equal to each other.\<close>

definition all_equal :: "'a list \<Rightarrow> bool" where
  "all_equal xs \<longleftrightarrow> (case xs of [] \<Rightarrow> True | x # rest \<Rightarrow> list_all (\<lambda>y. y = x) rest)"

definition check_list_type :: "value \<Rightarrow> error + unit" where
  "check_list_type v =
     (case infer_value_type v of
        Inl e \<Rightarrow> Inl e
      | Inr (List Num) \<Rightarrow> Inr ()
      | Inr (List Bool) \<Rightarrow> Inr ()
      | Inr (List (Var _)) \<Rightarrow> Inr ()
      | Inr _ \<Rightarrow> Inl TypeError)"

definition check_list_elements :: "value \<Rightarrow> error + unit" where
  "check_list_elements v =
     (case check_list_type v of
        Inl e \<Rightarrow> Inl e
      | Inr _ \<Rightarrow>
          (case v of
             VList xs \<Rightarrow>
               (case infer_value_types xs of
                  Inl e \<Rightarrow> Inl e
                | Inr element_types \<Rightarrow> if \<not> all_equal element_types then Inl TypeError else Inr ())
           | _ \<Rightarrow> Inl TypeError))"

definition check_type_add_value :: "value \<Rightarrow> value \<Rightarrow> error + unit" where
  "check_type_add_value list_value v =
     (case get_supported_element_types list_value of
        Inl e \<Rightarrow> Inl e
      | Inr supported_element_types \<Rightarrow>
          (case infer_value_type v of
             Inl e \<Rightarrow> Inl e
           | Inr value_type \<Rightarrow>
               if value_type \<notin> supported_element_types then Inl TypeError else Inr ()))"

text \<open>
  In this part a list is its value; the store and its callers do not share objects. What
  sharing does to \<^verbatim>\<open>get_list\<close> is the subject of the heap model further below.
\<close>

record lists =
  list_dict :: "(string \<times> value list) list"
  list_next_id :: int

definition lists_init :: lists where
  "lists_init = \<lparr>list_dict = [], list_next_id = 0\<rparr>"

definition is_valid_list :: "lists \<Rightarrow> string \<Rightarrow> bool" where
  "is_valid_list L list_name \<longleftrightarrow> list_name \<in> fst ` set (list_dict L)"

definition check_list_name :: "lists \<Rightarrow> string \<Rightarrow> error + unit" where
  "check_list_name L list_name =
     (if list_name \<notin> fst ` set (list_dict L) then Inl ValueError else Inr ())"

definition create_list :: "lists \<Rightarrow> value \<Rightarrow> (error + string) \<times> lists" where
  "create_list L v =
     (case check_list_elements v of
        Inl e \<Rightarrow> (Inl e, L)
      | Inr _ \<Rightarrow>
          (let list_name = ''l'' @ str_int (list_next_id L)
           in (Inr list_name,
               L\<lparr>list_dict := AList.update list_name (case v of VList xs \<Rightarrow> xs | _ \<Rightarrow> [])
                                (list_dict L),
                 list_next_id := list_next_id L + 1\<rparr>)))"

definition update_list :: "lists \<Rightarrow> string \<Rightarrow> value \<Rightarrow> (error + unit) \<times> lists" where
  "update_list L list_name v =
     (case check_list_name L list_name of
        Inl e \<Rightarrow> (Inl e, L)
      | Inr _ \<Rightarrow>
          (case check_list_elements v of
             Inl e \<Rightarrow> (Inl e, L)
           | Inr _ \<Rightarrow>
               (Inr (), L\<lparr>list_dict := AList.update list_name (case v of VList xs \<Rightarrow> xs | _ \<Rightarrow> [])
                                         (list_dict L)\<rparr>)))"

definition get_list :: "lists \<Rightarrow> string \<Rightarrow> error + value list" where
  "get_list L list_name = lookup (list_dict L) list_name"

definition get_list_element :: "lists \<Rightarrow> string \<Rightarrow> int \<Rightarrow> error + value" where
  "get_list_element L list_name index =
     (case lookup (list_dict L) list_name of Inl e \<Rightarrow> Inl e | Inr xs \<Rightarrow> py_getitem xs index)"

definition delete_list :: "lists \<Rightarrow> string \<Rightarrow> (error + unit) \<times> lists" where
  "delete_list L list_name =
     (case check_list_name L list_name of
        Inl e \<Rightarrow> (Inl e, L)
      | Inr _ \<Rightarrow> (Inr (), L\<lparr>list_dict := AList.delete list_name (list_dict L)\<rparr>))"

text \<open>
  The four element operations share their shape: check the name, read the list, check or compute,
  write the list back.
\<close>

definition on_list ::
  "lists \<Rightarrow> string \<Rightarrow> (value list \<Rightarrow> error + 'a \<times> value list) \<Rightarrow> (error + 'a) \<times> lists" where
  "on_list L list_name f =
     (case check_list_name L list_name of
        Inl e \<Rightarrow> (Inl e, L)
      | Inr _ \<Rightarrow>
          (case lookup (list_dict L) list_name of
             Inl e \<Rightarrow> (Inl e, L)
           | Inr xs \<Rightarrow>
               (case f xs of
                  Inl e \<Rightarrow> (Inl e, L)
                | Inr (r, ys) \<Rightarrow>
                    (Inr r, L\<lparr>list_dict := AList.update list_name ys (list_dict L)\<rparr>))))"

definition append_to_list :: "lists \<Rightarrow> string \<Rightarrow> value \<Rightarrow> (error + int) \<times> lists" where
  "append_to_list L list_name v =
     on_list L list_name (\<lambda>xs.
       case check_type_add_value (VList xs) v of
         Inl e \<Rightarrow> Inl e
       | Inr _ \<Rightarrow> Inr (int (length (xs @ [v])) - 1, xs @ [v]))"

definition insert_list_element ::
  "lists \<Rightarrow> string \<Rightarrow> value \<Rightarrow> int \<Rightarrow> (error + unit) \<times> lists" where
  "insert_list_element L list_name v index =
     on_list L list_name (\<lambda>xs.
       case check_type_add_value (VList xs) v of
         Inl e \<Rightarrow> Inl e
       | Inr _ \<Rightarrow> Inr ((), py_insert xs index v))"

definition update_list_element ::
  "lists \<Rightarrow> string \<Rightarrow> value \<Rightarrow> int \<Rightarrow> (error + unit) \<times> lists" where
  "update_list_element L list_name v index =
     on_list L list_name (\<lambda>xs.
       case check_type_add_value (VList (py_slice_to xs index @ py_slice_from xs (index + 1))) v of
         Inl e \<Rightarrow> Inl e
       | Inr _ \<Rightarrow> (case py_setitem xs index v of Inl e \<Rightarrow> Inl e | Inr ys \<Rightarrow> Inr ((), ys)))"

definition delete_list_element :: "lists \<Rightarrow> string \<Rightarrow> int \<Rightarrow> (error + unit) \<times> lists" where
  "delete_list_element L list_name index =
     on_list L list_name (\<lambda>xs.
       case py_pop xs index of Inl e \<Rightarrow> Inl e | Inr ys \<Rightarrow> Inr ((), ys))"

section \<open>Functions (backend/functions.py)\<close>

record function_store =
  builtin :: "(string \<times> func) list"
  custom :: "(string \<times> func) list"
  next_id_custom :: int

definition functions_init :: function_store where
  "functions_init = \<lparr>builtin = [], custom = [], next_id_custom = 0\<rparr>"

text \<open>\<^verbatim>\<open>self._builtin | self._custom\<close>: the entries of the right operand win.\<close>

definition get_all_functions :: "function_store \<Rightarrow> (string \<times> func) list" where
  "get_all_functions F = fold (\<lambda>(k, v). AList.update k v) (custom F) (builtin F)"

definition is_valid_function :: "function_store \<Rightarrow> string \<Rightarrow> bool" where
  "is_valid_function F function_name \<longleftrightarrow> function_name \<in> fst ` set (get_all_functions F)"

definition get_function :: "function_store \<Rightarrow> string \<Rightarrow> error + func" where
  "get_function F function_name = lookup (get_all_functions F) function_name"

definition add_function :: "function_store \<Rightarrow> func \<Rightarrow> string \<times> function_store" where
  "add_function F f =
     (let function_name = ''f'' @ str_int (next_id_custom F)
      in (function_name,
          F\<lparr>custom := AList.update function_name f (custom F),
            next_id_custom := next_id_custom F + 1\<rparr>))"

definition replace_builtins :: "function_store \<Rightarrow> (string \<times> func) list \<Rightarrow> function_store" where
  "replace_builtins F builtins = F\<lparr>builtin := builtins\<rparr>"

definition delete_function :: "function_store \<Rightarrow> string \<Rightarrow> (error + unit) \<times> function_store" where
  "delete_function F function_name =
     (if function_name \<in> fst ` set (custom F)
      then (Inr (), F\<lparr>custom := AList.delete function_name (custom F)\<rparr>)
      else (Inl KeyError, F))"

section \<open>The branch tree (backend/tree.py)\<close>

text \<open>
  The demonstration keeps references to nodes of its tree (the cursor, the positions of the
  recursive calls). A node is created with the path that leads to it, so a reference to a node
  is modelled by that path. \<open>node_at\<close> follows a path; \<open>modify_at\<close> changes the node at a path.
\<close>

fun node_at :: "tree \<Rightarrow> string list \<Rightarrow> tree option" where
  "node_at t [] = Some t"
| "node_at (Tree p b tt ff) (d # ds) =
     (if d = ''T'' then (case tt of None \<Rightarrow> None | Some c \<Rightarrow> node_at c ds)
      else if d = ''F'' then (case ff of None \<Rightarrow> None | Some c \<Rightarrow> node_at c ds)
      else None)"

fun modify_at :: "tree \<Rightarrow> string list \<Rightarrow> (tree \<Rightarrow> tree) \<Rightarrow> tree" where
  "modify_at t [] f = f t"
| "modify_at (Tree p b tt ff) (d # ds) f =
     (if d = ''T'' then Tree p b (map_option (\<lambda>c. modify_at c ds f) tt) ff
      else if d = ''F'' then Tree p b tt (map_option (\<lambda>c. modify_at c ds f) ff)
      else Tree p b tt ff)"

definition get_instruction :: "tree \<Rightarrow> nat \<Rightarrow> error + instruction" where
  "get_instruction t pos = (if pos < length (block t) then Inr (block t ! pos) else Inl IndexError)"

definition append_instruction :: "tree \<Rightarrow> instruction \<Rightarrow> tree" where
  "append_instruction t instr = Tree (path t) (block t @ [instr]) (true t) (false t)"

fun remaining_examples :: "tree \<Rightarrow> string list list" where
  "remaining_examples (Tree p b (Some tt) (Some ff)) = remaining_examples tt @ remaining_examples ff"
| "remaining_examples (Tree p b None (Some ff)) = [p @ [''T'']] @ remaining_examples ff"
| "remaining_examples (Tree p b (Some tt) None) = remaining_examples tt @ [p @ [''F'']]"
| "remaining_examples (Tree p b None None) = []"

text \<open>\<^verbatim>\<open>get_true(True)\<close> and \<^verbatim>\<open>get_false(True)\<close>: the child is created when it is missing.\<close>

definition get_true :: "tree \<Rightarrow> tree" where
  "get_true t =
     (case true t of
        None \<Rightarrow> Tree (path t) (block t) (Some (Tree (path t @ [''T'']) [] None None)) (false t)
      | Some _ \<Rightarrow> t)"

definition get_false :: "tree \<Rightarrow> tree" where
  "get_false t =
     (case false t of
        None \<Rightarrow> Tree (path t) (block t) (true t) (Some (Tree (path t @ [''F'']) [] None None))
      | Some _ \<Rightarrow> t)"


section \<open>The demonstration (backend/demonstration.py)\<close>

definition ABSTRACT_TYPE_SIG :: string where
  "ABSTRACT_TYPE_SIG = ''w_sig''"

definition ABSTRACT_TYPE_PREFIX :: string where
  "ABSTRACT_TYPE_PREFIX = ''w''"

definition ABSTRACT_TYPE_OUTPUT :: string where
  "ABSTRACT_TYPE_OUTPUT = ''w_out''"

text \<open>
  The expression of a temporary is a Python list object. When the instruction of a recursive call
  is appended to the tree, the tree and the entry of the temporary hold the same list, so that
  \<^verbatim>\<open>add_input\<close>, which appends to the expressions of the recorded recursive calls, changes both.
  \<open>Shared p i\<close> stands for the expression of the instruction at position \<open>i\<close> of the node at
  path \<open>p\<close>; \<open>Own e\<close> is a list of its own.
\<close>

datatype temp_expr = Own expr | Shared "string list" nat

record demonstration =
  constants :: "(string \<times> value) list"
  next_id_constants :: int
  inputs :: "(string \<times> string) list"
  next_id_inputs :: int
  types :: "(string \<times> tm) list"
  next_id_type :: int
  temps :: "(string \<times> temp_expr \<times> value) list"
  next_id_temps :: int
  new_branch :: bool
  prev_next_id_temps :: int
  recursive_calls :: "(string list \<times> nat) list"
  tree :: tree
  current_node :: "string list"
  block_counter :: nat
  constraints :: "equation list"

definition demonstration_init :: demonstration where
  "demonstration_init =
     \<lparr>constants = [], next_id_constants = 0, inputs = [], next_id_inputs = 0, types = [],
      next_id_type = 0, temps = [], next_id_temps = 0, new_branch = True,
      prev_next_id_temps = 0, recursive_calls = [], tree = Tree [] [] None None,
      current_node = [], block_counter = 0, constraints = []\<rparr>"

text \<open>
  The node a reference denotes. Every reference the demonstration holds denotes a node of its
  tree; for a path that denotes none, the model reads an empty node.
\<close>

definition the_node :: "tree \<Rightarrow> string list \<Rightarrow> tree" where
  "the_node t p = (case node_at t p of Some n \<Rightarrow> n | None \<Rightarrow> Tree p [] None None)"

definition is_used :: "demonstration \<Rightarrow> string \<Rightarrow> bool" where
  "is_used D name \<longleftrightarrow> name \<in> fst ` set (inputs D)"

definition get_temp :: "demonstration \<Rightarrow> string \<Rightarrow> error + value" where
  "get_temp D name = (case lookup (temps D) name of Inl e \<Rightarrow> Inl e | Inr (_, v) \<Rightarrow> Inr v)"

definition get_temp_names :: "demonstration \<Rightarrow> string list" where
  "get_temp_names D = map fst (temps D)"

definition get_temp_computation :: "demonstration \<Rightarrow> string \<Rightarrow> error + expr" where
  "get_temp_computation D name =
     (case lookup (temps D) name of
        Inl e \<Rightarrow> Inl e
      | Inr (Own e, _) \<Rightarrow> Inr e
      | Inr (Shared p i, _) \<Rightarrow>
          (case get_instruction (the_node (tree D) p) i of
             Inl e \<Rightarrow> Inl e
           | Inr instr \<Rightarrow> Inr (snd instr)))"

definition is_valid_temp :: "demonstration \<Rightarrow> string \<Rightarrow> bool" where
  "is_valid_temp D name \<longleftrightarrow> name \<in> fst ` set (temps D)"

definition is_valid_name :: "demonstration \<Rightarrow> string \<Rightarrow> bool" where
  "is_valid_name D name \<longleftrightarrow> is_valid_temp D name"

text \<open>The search of \<^verbatim>\<open>add_constant\<close> for a constant with the same value.\<close>

fun find_constant :: "env \<Rightarrow> (string \<times> value) list \<Rightarrow> value \<Rightarrow> string option" where
  "find_constant E [] v = None"
| "find_constant E ((k, c) # rest) v =
     (case (c, v) of
        (VFun f, VFun g) \<Rightarrow> if unique_id f = unique_id g then Some k else find_constant E rest v
      | _ \<Rightarrow> if py_eq E c v then Some k else find_constant E rest v)"

definition add_constant :: "env \<Rightarrow> demonstration \<Rightarrow> value \<Rightarrow> (error + string) \<times> demonstration" where
  "add_constant E D v =
     (case find_constant E (constants D) v of
        Some k \<Rightarrow> (Inr k, D)
      | None \<Rightarrow>
          (let const_name = ''const'' @ str_int (next_id_constants D) in
           case infer_value_type v of
             Inl e \<Rightarrow> (Inl e, D)
           | Inr const_type \<Rightarrow>
               (let D1 = D\<lparr>constants := AList.update const_name v (constants D),
                           next_id_constants := next_id_constants D + 1\<rparr> in
                case alpha_conversion (itr E) const_type ABSTRACT_TYPE_PREFIX (next_id_type D1) of
                  Inl e \<Rightarrow> (Inl e, D1)
                | Inr (t, n) \<Rightarrow>
                    (Inr const_name,
                     D1\<lparr>types := AList.update const_name t (types D1), next_id_type := n\<rparr>))))"

text \<open>
  The loop of \<^verbatim>\<open>add_input\<close> over the recorded recursive calls: the new input name is appended to
  the expression of each of them, in the tree.
\<close>

definition append_to_expr :: "nat \<Rightarrow> string \<Rightarrow> tree \<Rightarrow> tree" where
  "append_to_expr i name n =
     Tree (path n) ((block n)[i := (fst (block n ! i), snd (block n ! i) @ [name])])
       (true n) (false n)"

fun extend_recursive_calls ::
  "(string list \<times> nat) list \<Rightarrow> string \<Rightarrow> tree \<Rightarrow> error + tree" where
  "extend_recursive_calls [] name t = Inr t"
| "extend_recursive_calls ((p, i) # rcalls) name t =
     (case get_instruction (the_node t p) i of
        Inl e \<Rightarrow> Inl e
      | Inr _ \<Rightarrow> extend_recursive_calls rcalls name (modify_at t p (append_to_expr i name)))"

definition add_input :: "demonstration \<Rightarrow> string \<Rightarrow> (error + string) \<times> demonstration" where
  "add_input D s_in =
     (if s_in \<notin> fst ` set (inputs D) then
        (let input_name = ''in'' @ str_int (next_id_inputs D);
             D1 = D\<lparr>inputs := AList.update s_in input_name (inputs D),
                     next_id_inputs := next_id_inputs D + 1\<rparr> in
         case extend_recursive_calls (recursive_calls D1) input_name (tree D1) of
           Inl e \<Rightarrow> (Inl e, D1)
         | Inr t \<Rightarrow>
             (Inr input_name,
              D1\<lparr>tree := t,
                 types := AList.update input_name
                            (Var (ABSTRACT_TYPE_PREFIX @ str_int (next_id_type D1))) (types D1),
                 next_id_type := next_id_type D1 + 1\<rparr>))
      else (lookup (inputs D) s_in, D))"

definition get_expected :: "demonstration \<Rightarrow> instruction option" where
  "get_expected D =
     (case get_instruction (the_node (tree D) (current_node D)) (block_counter D) of
        Inl _ \<Rightarrow> None
      | Inr instr \<Rightarrow> Some instr)"

definition is_expected :: "demonstration \<Rightarrow> bool" where
  "is_expected D \<longleftrightarrow> get_expected D \<noteq> None"

definition switch_next_id_temps :: "demonstration \<Rightarrow> demonstration" where
  "switch_next_id_temps D =
     (if \<not> new_branch D \<and> \<not> is_expected D
      then D\<lparr>next_id_temps := prev_next_id_temps D, new_branch := True\<rparr>
      else D)"

definition add_instruction :: "demonstration \<Rightarrow> instruction \<Rightarrow> (error + unit) \<times> demonstration" where
  "add_instruction D instr =
     (case get_expected D of
        None \<Rightarrow>
          (Inr (), D\<lparr>tree := modify_at (tree D) (current_node D) (\<lambda>n. append_instruction n instr)\<rparr>)
      | Some expected \<Rightarrow> if instr \<noteq> expected then (Inl ValueError, D) else (Inr (), D))"

text \<open>\<^verbatim>\<open>[self._types[key] for key in names]\<close>.\<close>

fun lookup_all :: "(string \<times> 'a) list \<Rightarrow> string list \<Rightarrow> error + 'a list" where
  "lookup_all d [] = Inr []"
| "lookup_all d (key # keys) =
     (case lookup d key of
        Inl e \<Rightarrow> Inl e
      | Inr v \<Rightarrow> (case lookup_all d keys of Inl e \<Rightarrow> Inl e | Inr vs \<Rightarrow> Inr (v # vs)))"

text \<open>
  The common part of \<^verbatim>\<open>add_function_application\<close> and \<^verbatim>\<open>add_recursive_application\<close> after the
  instruction has been added: the temporary is recorded and receives a type when it has none.
\<close>

definition record_temp :: "demonstration \<Rightarrow> string \<Rightarrow> temp_expr \<Rightarrow> value \<Rightarrow> demonstration" where
  "record_temp D temp_name e result =
     (let D1 = D\<lparr>temps := AList.update temp_name (e, result) (temps D),
                 next_id_temps := next_id_temps D + 1\<rparr>
      in if temp_name \<notin> fst ` set (types D1)
         then D1\<lparr>types := AList.update temp_name
                             (Var (ABSTRACT_TYPE_PREFIX @ str_int (next_id_type D1))) (types D1),
                 next_id_type := next_id_type D1 + 1\<rparr>
         else D1)"

definition add_function_application ::
  "demonstration \<Rightarrow> expr \<Rightarrow> value \<Rightarrow> (error + string) \<times> demonstration" where
  "add_function_application D expr result =
     (let D1 = switch_next_id_temps D;
          temp_name = ''temp'' @ str_int (next_id_temps D1) in
      case add_instruction D1 (Some temp_name, expr) of
        (Inl e, D2) \<Rightarrow> (Inl e, D2)
      | (Inr _, D2) \<Rightarrow>
          (let D3 = record_temp (D2\<lparr>block_counter := block_counter D2 + 1\<rparr>)
                      temp_name (Own expr) result in
           case expr of
             [] \<Rightarrow> (Inl IndexError, D3)
           | f # args \<Rightarrow>
               (case lookup (types D3) f of
                  Inl e \<Rightarrow> (Inl e, D3)
                | Inr lhs \<Rightarrow>
                    (case lookup_all (types D3) (args @ [temp_name]) of
                       Inl e \<Rightarrow> (Inl e, D3)
                     | Inr rhs_types \<Rightarrow>
                         (case combine_into_app rhs_types of
                            Inl e \<Rightarrow> (Inl e, D3)
                          | Inr rhs \<Rightarrow>
                              (Inr temp_name,
                               D3\<lparr>constraints := constraints D3 @ [(lhs, rhs)]\<rparr>))))))"

definition add_recursive_application ::
  "demonstration \<Rightarrow> expr \<Rightarrow> value \<Rightarrow> (error + string) \<times> demonstration" where
  "add_recursive_application D expr result =
     (let D1 = switch_next_id_temps D;
          temp_name = ''temp'' @ str_int (next_id_temps D1);
          appended = (get_expected D1 = None) in
      case add_instruction D1 (Some temp_name, expr) of
        (Inl e, D2) \<Rightarrow> (Inl e, D2)
      | (Inr _, D2) \<Rightarrow>
          (let D3 = D2\<lparr>recursive_calls := recursive_calls D2 @ [(current_node D2, block_counter D2)]\<rparr>;
               D4 = record_temp (D3\<lparr>block_counter := block_counter D3 + 1\<rparr>) temp_name
                      (if appended then Shared (current_node D2) (block_counter D2) else Own expr)
                      result in
           case lookup_all (types D4) (map snd (inputs D4)) of
             Inl e \<Rightarrow> (Inl e, D4)
           | Inr input_types \<Rightarrow>
               (case combine_into_app (input_types @ [Var ABSTRACT_TYPE_OUTPUT]) of
                  Inl e \<Rightarrow> (Inl e, D4)
                | Inr lhs \<Rightarrow>
                    (case lookup_all (types D4) (tl expr @ [temp_name]) of
                       Inl e \<Rightarrow> (Inl e, D4)
                     | Inr rhs_types \<Rightarrow>
                         (case combine_into_app rhs_types of
                            Inl e \<Rightarrow> (Inl e, D4)
                          | Inr rhs \<Rightarrow>
                              (Inr temp_name,
                               D4\<lparr>constraints := constraints D4 @ [(lhs, rhs)]\<rparr>))))))"

text \<open>\<^verbatim>\<open>Demonstration.branch\<close> and \<^verbatim>\<open>Demonstration.ret\<close> carry the suffix \<open>_demo\<close>.\<close>

definition branch_demo ::
  "demonstration \<Rightarrow> string \<Rightarrow> bool \<Rightarrow> (error + unit) \<times> demonstration" where
  "branch_demo D cnd_name cnd_value =
     (case lookup (types D) cnd_name of
        Inl e \<Rightarrow> (Inl e, D)
      | Inr t \<Rightarrow>
          (case add_instruction (D\<lparr>constraints := constraints D @ [(t, Bool)]\<rparr>)
                  (None, [''branch'', cnd_name]) of
             (Inl e, D1) \<Rightarrow> (Inl e, D1)
           | (Inr _, D1) \<Rightarrow>
               (Inr (),
                (if cnd_value
                 then D1\<lparr>tree := modify_at (tree D1) (current_node D1) get_true,
                         current_node := current_node D1 @ [''T'']\<rparr>
                 else D1\<lparr>tree := modify_at (tree D1) (current_node D1) get_false,
                         current_node := current_node D1 @ [''F'']\<rparr>)
                \<lparr>block_counter := 0\<rparr>)))"

definition ret_demo :: "demonstration \<Rightarrow> string \<Rightarrow> (error + unit) \<times> demonstration" where
  "ret_demo D name =
     (case lookup (types D) name of
        Inl e \<Rightarrow> (Inl e, D)
      | Inr t \<Rightarrow>
          (case add_instruction (D\<lparr>constraints := constraints D @ [(t, Var ABSTRACT_TYPE_OUTPUT)]\<rparr>)
                  (None, [''ret'', name]) of
             (Inl e, D1) \<Rightarrow> (Inl e, D1)
           | (Inr _, D1) \<Rightarrow> (Inr (), D1\<lparr>new_branch := False\<rparr>)))"

definition prepare :: "demonstration \<Rightarrow> demonstration" where
  "prepare D =
     D\<lparr>current_node := [], block_counter := 0, temps := [],
       prev_next_id_temps := next_id_temps D, next_id_temps := 0\<rparr>"

definition remaining_examples_demo :: "demonstration \<Rightarrow> string list list" where
  "remaining_examples_demo D = remaining_examples (tree D)"

text \<open>
  The loop of \<^verbatim>\<open>generate_function\<close> that searches the unified constraints for the signature:
  the loop variable keeps the right-hand side of the last equation visited.
\<close>

fun find_signature :: "tm option \<Rightarrow> equation list \<Rightarrow> tm option" where
  "find_signature sig [] = sig"
| "find_signature sig ((lhs, rhs) # rest) =
     (if lhs = Var ABSTRACT_TYPE_SIG then Some rhs else find_signature (Some rhs) rest)"

text \<open>
  \<^verbatim>\<open>generate_function\<close>. The list given to \<^verbatim>\<open>unify\<close> is never empty, and neither is its result as
  long as the equation for \<^verbatim>\<open>w_sig\<close> stays in it; for an empty result Python would construct a
  function whose signature is \<^verbatim>\<open>None\<close>, which the model reports as an \<^verbatim>\<open>AssertionError\<close>.
\<close>

definition generate_function :: "demonstration \<Rightarrow> int \<Rightarrow> (error + func) option" where
  "generate_function D uid =
     (case lookup_all (types D) (map snd (inputs D)) of
        Inl e \<Rightarrow> Some (Inl e)
      | Inr input_types \<Rightarrow>
          (case combine_into_app (input_types @ [Var ABSTRACT_TYPE_OUTPUT]) of
             Inl e \<Rightarrow> Some (Inl e)
           | Inr t \<Rightarrow>
               (case unify (constraints D @ [(Var ABSTRACT_TYPE_SIG, t)]) of
                  None \<Rightarrow> None
                | Some (Inl e) \<Rightarrow> Some (Inl e)
                | Some (Inr unified_constraints) \<Rightarrow>
                    (case find_signature None unified_constraints of
                       None \<Rightarrow> Some (Inl AssertionError)
                     | Some sig \<Rightarrow>
                         Some (Inr (CustomFunction sig (tree D) (constants D) uid))))))"


section \<open>The fa\c{c}ade (backend/state.py)\<close>

definition BETWEEN :: int where
  "BETWEEN = - 1"

definition INTERACTIVE :: int where
  "INTERACTIVE = 0"

definition DEMONSTRATION :: int where
  "DEMONSTRATION = 1"

text \<open>The attributes of \<^verbatim>\<open>State\<close>; \<open>next_unique_id\<close> is \<^verbatim>\<open>_unique_id\<close>.\<close>

record state =
  st_registers :: registers
  st_lists :: lists
  st_functions :: function_store
  current_demonstration :: "demonstration option"
  mode :: int
  selected :: "(string \<times> bool) list"
  next_unique_id :: int

text \<open>
  \<^verbatim>\<open>__init__\<close>: the built-in functions receive the unique ids 0, 1, ... in the order of
  \<^verbatim>\<open>supported_operations\<close>.
\<close>

definition state_init :: state where
  "state_init =
     \<lparr>st_registers = registers_init,
      st_lists = lists_init,
      st_functions = replace_builtins functions_init
        (map (\<lambda>(i, name, sig). (name, BuiltinFunction name sig (int i)))
           (List.enumerate 0 supported_operations)),
      current_demonstration = None,
      mode = 0,
      selected = [],
      next_unique_id = int (length supported_operations)\<rparr>"

text \<open>
  A method of the fa\c{c}ade returns its result or the exception it raised, together with the
  state it leaves behind. The methods that evaluate functions or unify may fail to return:
  their model is \<open>None\<close> then.
\<close>

type_synonym 'a total = "(error + 'a) \<times> state"

type_synonym 'a partial = "((error + 'a) \<times> state) option"

text \<open>
  \<^verbatim>\<open>_state_copy\<close> deep-copies the tuple of all attributes; \<^verbatim>\<open>_state_restore\<close> assigns the
  attributes from such a tuple. The model has values only, so the deep copy of a value is the
  value.
\<close>

type_synonym state_snap =
  "registers \<times> lists \<times> function_store \<times> demonstration option \<times> int \<times> (string \<times> bool) list \<times> int"

definition state_copy :: "state \<Rightarrow> state_snap" where
  "state_copy S =
     (st_registers S, st_lists S, st_functions S, current_demonstration S, mode S, selected S,
      next_unique_id S)"

definition state_restore :: "state \<Rightarrow> state_snap \<Rightarrow> state" where
  "state_restore S state_snap =
     (case state_snap of (r, l, f, d, m, sel, u) \<Rightarrow>
        S\<lparr>st_registers := r, st_lists := l, st_functions := f, current_demonstration := d,
          mode := m, selected := sel, next_unique_id := u\<rparr>)"

definition is_interactive :: "state \<Rightarrow> bool" where
  "is_interactive S \<longleftrightarrow> mode S = INTERACTIVE"

definition is_demonstration :: "state \<Rightarrow> bool" where
  "is_demonstration S \<longleftrightarrow> mode S = DEMONSTRATION"

definition is_between :: "state \<Rightarrow> bool" where
  "is_between S \<longleftrightarrow> mode S = BETWEEN"

definition current_mode :: "state \<Rightarrow> string" where
  "current_mode S =
     (if is_interactive S then ''INTERACTIVE''
      else if is_demonstration S then ''DEMONSTRATION''
      else if is_between S then ''BETWEEN''
      else ''INVALID'')"

text \<open>
  \<^verbatim>\<open>get_value\<close> tries the three registries and then the temporaries of the demonstration; each
  \<^verbatim>\<open>try\<close> catches \<^verbatim>\<open>KeyError\<close> only. Without a demonstration the attribute \<^verbatim>\<open>get_temp\<close> is looked
  up on \<^verbatim>\<open>None\<close>, which raises \<^verbatim>\<open>AttributeError\<close>.
\<close>

definition get_value :: "state \<Rightarrow> string \<Rightarrow> error + value" where
  "get_value S name =
     (case get_register (st_registers S) name of
        Inr v \<Rightarrow> Inr v
      | Inl e1 \<Rightarrow>
          if e1 \<noteq> KeyError then Inl e1
          else
            (case get_list (st_lists S) name of
               Inr xs \<Rightarrow> Inr (VList xs)
             | Inl e2 \<Rightarrow>
                 if e2 \<noteq> KeyError then Inl e2
                 else
                   (case get_function (st_functions S) name of
                      Inr f \<Rightarrow> Inr (VFun f)
                    | Inl e3 \<Rightarrow>
                        if e3 \<noteq> KeyError then Inl e3
                        else
                          (case current_demonstration S of
                             None \<Rightarrow> Inl AttributeError
                           | Some D \<Rightarrow>
                               (case get_temp D name of
                                  Inr v \<Rightarrow> Inr v
                                | Inl e4 \<Rightarrow>
                                    if e4 \<noteq> KeyError then Inl e4 else Inl ValueError)))))"

definition is_valid_temporary :: "state \<Rightarrow> string \<Rightarrow> error + bool" where
  "is_valid_temporary S temp_name =
     (if \<not> is_demonstration S then Inr False
      else
        (case current_demonstration S of
           None \<Rightarrow> Inl AttributeError
         | Some D \<Rightarrow> Inr (is_valid_temp D temp_name)))"

definition get_computation :: "state \<Rightarrow> string \<Rightarrow> error + expr" where
  "get_computation S name =
     (case is_valid_temporary S name of
        Inl e \<Rightarrow> Inl e
      | Inr valid \<Rightarrow>
          if \<not> valid then Inl ValueError
          else
            (case current_demonstration S of
               None \<Rightarrow> Inl AttributeError
             | Some D \<Rightarrow> get_temp_computation D name))"

definition get_selected :: "state \<Rightarrow> (string \<times> bool) list" where
  "get_selected S = selected S"

definition get_temp_names_state :: "state \<Rightarrow> error + string list" where
  "get_temp_names_state S =
     (case current_demonstration S of None \<Rightarrow> Inl AttributeError | Some D \<Rightarrow> Inr (get_temp_names D))"

subsection \<open>Private helpers\<close>

definition get_unique_id :: "state \<Rightarrow> int \<times> state" where
  "get_unique_id S = (next_unique_id S, S\<lparr>next_unique_id := next_unique_id S + 1\<rparr>)"

definition check_interactive :: "state \<Rightarrow> error + unit" where
  "check_interactive S = (if \<not> is_interactive S then Inl ModeError else Inr ())"

definition check_demonstration :: "state \<Rightarrow> error + unit" where
  "check_demonstration S = (if \<not> is_demonstration S then Inl ModeError else Inr ())"

definition check_between :: "state \<Rightarrow> error + unit" where
  "check_between S = (if \<not> is_between S then Inl ModeError else Inr ())"

definition check_interactive_between :: "state \<Rightarrow> error + unit" where
  "check_interactive_between S =
     (if \<not> (is_interactive S \<or> is_between S) then Inl ModeError else Inr ())"

definition set_interactive :: "state \<Rightarrow> state" where
  "set_interactive S = S\<lparr>mode := INTERACTIVE\<rparr>"

definition set_demonstration :: "state \<Rightarrow> state" where
  "set_demonstration S = S\<lparr>mode := DEMONSTRATION\<rparr>"

definition set_between :: "state \<Rightarrow> state" where
  "set_between S = S\<lparr>mode := BETWEEN\<rparr>"

definition is_valid_name_state :: "state \<Rightarrow> string \<Rightarrow> error + bool" where
  "is_valid_name_state S name =
     (if is_valid_register (st_registers S) name \<or> is_valid_list (st_lists S) name
         \<or> is_valid_function (st_functions S) name
      then Inr True
      else if \<not> is_demonstration S then Inr False
      else
        (case current_demonstration S of
           None \<Rightarrow> Inl AttributeError
         | Some D \<Rightarrow> Inr (is_valid_name D name)))"

text \<open>\<^verbatim>\<open>_is_used\<close> checks for demonstration mode first, so it raises in every other mode.\<close>

definition is_used_state :: "state \<Rightarrow> string \<Rightarrow> error + bool" where
  "is_used_state S name =
     (case check_demonstration S of
        Inl e \<Rightarrow> Inl e
      | Inr _ \<Rightarrow>
          (case current_demonstration S of
             None \<Rightarrow> Inl AttributeError
           | Some D \<Rightarrow> Inr (is_used D name)))"

fun get_values :: "state \<Rightarrow> string list \<Rightarrow> error + value list" where
  "get_values S [] = Inr []"
| "get_values S (name # names) =
     (case get_value S name of
        Inl e \<Rightarrow> Inl e
      | Inr v \<Rightarrow> (case get_values S names of Inl e \<Rightarrow> Inl e | Inr vs \<Rightarrow> Inr (v # vs)))"

definition delete_selected :: "state \<Rightarrow> string \<Rightarrow> state" where
  "delete_selected S name = S\<lparr>selected := filter (\<lambda>item. fst item \<noteq> name) (selected S)\<rparr>"

definition unselect_all :: "state \<Rightarrow> state" where
  "unselect_all S = S\<lparr>selected := []\<rparr>"

text \<open>A method of a registry, run on the attribute of the state that holds the registry.\<close>

definition on_registers :: "state \<Rightarrow> (registers \<Rightarrow> (error + 'a) \<times> registers) \<Rightarrow> 'a total" where
  "on_registers S f = (case f (st_registers S) of (r, R) \<Rightarrow> (r, S\<lparr>st_registers := R\<rparr>))"

definition on_lists :: "state \<Rightarrow> (lists \<Rightarrow> (error + 'a) \<times> lists) \<Rightarrow> 'a total" where
  "on_lists S f = (case f (st_lists S) of (r, L) \<Rightarrow> (r, S\<lparr>st_lists := L\<rparr>))"

definition on_demonstration ::
  "state \<Rightarrow> (demonstration \<Rightarrow> (error + 'a) \<times> demonstration) \<Rightarrow> 'a total" where
  "on_demonstration S f =
     (case current_demonstration S of
        None \<Rightarrow> (Inl AttributeError, S)
      | Some D \<Rightarrow> (case f D of (r, D') \<Rightarrow> (r, S\<lparr>current_demonstration := Some D'\<rparr>)))"

subsection \<open>Registers and lists\<close>

text \<open>
  The methods of the fa\c{c}ade that have the name of a registry method carry the suffix \<open>_st\<close>.
  \<open>when_unused\<close> is the guard of demonstration mode: the method proceeds when the name is not in
  use.
\<close>

definition when_unused :: "state \<Rightarrow> string \<Rightarrow> (state \<Rightarrow> 'a total) \<Rightarrow> 'a total" where
  "when_unused S name f =
     (case is_used_state S name of
        Inl e \<Rightarrow> (Inl e, S)
      | Inr used \<Rightarrow> if used then (Inl ValueError, S) else f S)"

definition create_register_st :: "state \<Rightarrow> value \<Rightarrow> string total" where
  "create_register_st S v = on_registers S (\<lambda>R. create_register R v)"

definition delete_register_st :: "state \<Rightarrow> string \<Rightarrow> unit total" where
  "delete_register_st S register =
     (let delete = (\<lambda>S. case on_registers S (\<lambda>R. delete_register R register) of
                          (Inl e, S') \<Rightarrow> (Inl e, S')
                        | (Inr _, S') \<Rightarrow> (Inr (), delete_selected S' register))
      in if is_interactive S then delete S
         else if is_demonstration S \<or> is_between S then when_unused S register delete
         else (Inl AssertionError, S))"

definition update_register_st :: "state \<Rightarrow> string \<Rightarrow> value \<Rightarrow> unit total" where
  "update_register_st S register v =
     (let update = (\<lambda>S. on_registers S (\<lambda>R. update_register R register v))
      in if is_interactive S \<or> is_between S then update S
         else if is_demonstration S then when_unused S register update
         else (Inl AssertionError, S))"

definition create_list_st :: "state \<Rightarrow> value \<Rightarrow> string total" where
  "create_list_st S v = on_lists S (\<lambda>L. create_list L (if v = VNone then VList [] else v))"

text \<open>
  \<^verbatim>\<open>update_list\<close>: in demonstration mode the method checks that the list is not in use and ends
  there; a mode that is none of the three falls through both branches.
\<close>

definition update_list_st :: "state \<Rightarrow> string \<Rightarrow> value \<Rightarrow> unit total" where
  "update_list_st S list_name v =
     (if is_interactive S \<or> is_between S then on_lists S (\<lambda>L. update_list L list_name v)
      else if is_demonstration S then when_unused S list_name (\<lambda>S. (Inr (), S))
      else (Inr (), S))"

definition delete_list_st :: "state \<Rightarrow> string \<Rightarrow> unit total" where
  "delete_list_st S list_name =
     (let delete = (\<lambda>S. case on_lists S (\<lambda>L. delete_list L list_name) of
                          (Inl e, S') \<Rightarrow> (Inl e, S')
                        | (Inr _, S') \<Rightarrow> (Inr (), delete_selected S' list_name))
      in if is_interactive S then delete S
         else if is_demonstration S \<or> is_between S then when_unused S list_name delete
         else (Inl AssertionError, S))"

definition append_to_list_st :: "state \<Rightarrow> string \<Rightarrow> value \<Rightarrow> int total" where
  "append_to_list_st S list_name v =
     (let change = (\<lambda>S. on_lists S (\<lambda>L. append_to_list L list_name v))
      in if is_interactive S \<or> is_between S then change S
         else if is_demonstration S then when_unused S list_name change
         else (Inl AssertionError, S))"

definition insert_list_element_st :: "state \<Rightarrow> string \<Rightarrow> value \<Rightarrow> int \<Rightarrow> unit total" where
  "insert_list_element_st S list_name v index =
     (let change = (\<lambda>S. on_lists S (\<lambda>L. insert_list_element L list_name v index))
      in if is_interactive S \<or> is_between S then change S
         else if is_demonstration S then when_unused S list_name change
         else (Inl AssertionError, S))"

definition update_list_element_st :: "state \<Rightarrow> string \<Rightarrow> value \<Rightarrow> int \<Rightarrow> unit total" where
  "update_list_element_st S list_name v index =
     (let change = (\<lambda>S. on_lists S (\<lambda>L. update_list_element L list_name v index))
      in if is_interactive S \<or> is_between S then change S
         else if is_demonstration S then when_unused S list_name change
         else (Inl AssertionError, S))"

definition delete_list_element_st :: "state \<Rightarrow> string \<Rightarrow> int \<Rightarrow> unit total" where
  "delete_list_element_st S list_name index =
     (let change = (\<lambda>S. on_lists S (\<lambda>L. delete_list_element L list_name index))
      in if is_interactive S \<or> is_between S then change S
         else if is_demonstration S then when_unused S list_name change
         else (Inl AssertionError, S))"

subsection \<open>Functions and selection\<close>

definition create_function :: "state \<Rightarrow> unit total" where
  "create_function S =
     (if is_interactive S
      then (Inr (), (set_demonstration S)\<lparr>current_demonstration := Some demonstration_init\<rparr>)
      else if is_demonstration S \<or> is_between S then (Inl ValueError, S)
      else (Inl AssertionError, S))"

definition delete_function_st :: "state \<Rightarrow> string \<Rightarrow> unit total" where
  "delete_function_st S function_name =
     (if is_interactive S then
        (case delete_function (st_functions S) function_name of
           (r, F) \<Rightarrow> (r, S\<lparr>st_functions := F\<rparr>))
      else if is_demonstration S \<or> is_between S then (Inl ValueError, S)
      else (Inl AssertionError, S))"

definition select_interactive_between :: "state \<Rightarrow> string \<Rightarrow> int total" where
  "select_interactive_between S name =
     (case check_interactive_between S of
        Inl e \<Rightarrow> (Inl e, S)
      | Inr _ \<Rightarrow>
          (case is_valid_name_state S name of
             Inl e \<Rightarrow> (Inl e, S)
           | Inr valid \<Rightarrow>
               if \<not> valid then (Inl ValueError, S)
               else (Inr (int (length (selected S @ [(name, False)])) - 1),
                     S\<lparr>selected := selected S @ [(name, False)]\<rparr>)))"

definition select_demonstration :: "state \<Rightarrow> string \<Rightarrow> bool \<Rightarrow> int total" where
  "select_demonstration S name is_variable =
     (case check_demonstration S of
        Inl e \<Rightarrow> (Inl e, S)
      | Inr _ \<Rightarrow>
          (case is_valid_name_state S name of
             Inl e \<Rightarrow> (Inl e, S)
           | Inr valid \<Rightarrow>
               if \<not> valid then (Inl ValueError, S)
               else
                 (case current_demonstration S of
                    None \<Rightarrow> (Inl AttributeError, S)
                  | Some D \<Rightarrow>
                      (let v = (if is_valid_temp D name then True else is_variable)
                       in (Inr (int (length (selected S @ [(name, v)])) - 1),
                           S\<lparr>selected := selected S @ [(name, v)]\<rparr>)))))"

definition select :: "state \<Rightarrow> string \<Rightarrow> bool \<Rightarrow> int total" where
  "select S identifier is_variable =
     (if current_mode S = ''INTERACTIVE'' \<or> current_mode S = ''BETWEEN''
      then select_interactive_between S identifier
      else if current_mode S = ''DEMONSTRATION'' then select_demonstration S identifier is_variable
      else (Inl AssertionError, S))"

definition unselect :: "state \<Rightarrow> int \<Rightarrow> unit total" where
  "unselect S idx =
     (case py_pop (selected S) idx of
        Inl e \<Rightarrow> (Inl e, S)
      | Inr sel \<Rightarrow> (Inr (), S\<lparr>selected := sel\<rparr>))"

subsection \<open>Application, recursion, branching and return\<close>

text \<open>
  The handlers of \<^verbatim>\<open>_get_apply_result\<close> around the evaluation: \<^verbatim>\<open>TypeError\<close> and
  \<^verbatim>\<open>AlgotRuntimeError\<close> become \<^verbatim>\<open>ValueError\<close>; \<^verbatim>\<open>IndexError\<close> of the function under synthesis and
  \<^verbatim>\<open>NoneAsFunArg\<close> become the result \<^verbatim>\<open>None\<close>.
\<close>

definition apply_handlers :: "string \<Rightarrow> error \<Rightarrow> error + value" where
  "apply_handlers function_name e =
     (if e = TypeError \<or> e = AlgotRuntimeError then Inl ValueError
      else if e = IndexError then (if function_name = ''self'' then Inr VNone else Inl e)
      else if e = NoneAsFunArg then Inr VNone
      else Inl e)"

definition evaluate_selected :: "env \<Rightarrow> state \<Rightarrow> string \<Rightarrow> func \<Rightarrow> value partial" where
  "evaluate_selected E S function_name f =
     (case get_values S (map fst (selected S)) of
        Inl e \<Rightarrow> Some (apply_handlers function_name e, S)
      | Inr args \<Rightarrow>
          (case compute E f args of
             None \<Rightarrow> None
           | Some (Inl e) \<Rightarrow> Some (apply_handlers function_name e, S)
           | Some (Inr result) \<Rightarrow> Some (Inr result, S)))"

text \<open>
  \<^verbatim>\<open>_get_apply_result\<close>. For \<^verbatim>\<open>self\<close> the method \<^verbatim>\<open>generate_function\<close> is looked up on the
  demonstration before the unique id is taken; a \<^verbatim>\<open>KeyError\<close> of the first \<^verbatim>\<open>try\<close> becomes
  \<^verbatim>\<open>ValueError\<close>.
\<close>

definition get_apply_result :: "env \<Rightarrow> state \<Rightarrow> string \<Rightarrow> value partial" where
  "get_apply_result E S function_name =
     (if function_name = ''self'' then
        (case current_demonstration S of
           None \<Rightarrow> Some (Inl AttributeError, S)
         | Some D \<Rightarrow>
             (case get_unique_id S of (uid, S1) \<Rightarrow>
                (case generate_function D uid of
                   None \<Rightarrow> None
                 | Some (Inl e) \<Rightarrow> Some (Inl (if e = KeyError then ValueError else e), S1)
                 | Some (Inr f) \<Rightarrow> evaluate_selected E S1 function_name f)))
      else
        (case get_function (st_functions S) function_name of
           Inl e \<Rightarrow> Some (Inl (if e = KeyError then ValueError else e), S)
         | Inr f \<Rightarrow> evaluate_selected E S function_name f))"

definition store_value :: "state \<Rightarrow> value \<Rightarrow> string total" where
  "store_value S v =
     (case infer_value_type v of
        Inl e \<Rightarrow> (Inl e, S)
      | Inr Num \<Rightarrow> create_register_st S v
      | Inr Bool \<Rightarrow> create_register_st S v
      | Inr (List _) \<Rightarrow> create_list_st S v
      | Inr _ \<Rightarrow> (Inl AssertionError, S))"

text \<open>
  \<^verbatim>\<open>_add_to_function_context\<close>: the names enter the demonstration one after the other, so an
  exception leaves the earlier ones added.
\<close>

fun add_to_function_context :: "env \<Rightarrow> state \<Rightarrow> (string \<times> bool) list \<Rightarrow> string list total" where
  "add_to_function_context E S [] = (Inr [], S)"
| "add_to_function_context E S ((name, is_variable) # names) =
     (case current_demonstration S of
        None \<Rightarrow> (Inl AttributeError, S)
      | Some D \<Rightarrow>
          (case (if is_valid_temp D name then (Inr name, S)
                 else if is_variable then on_demonstration S (\<lambda>D. add_input D name)
                 else
                   (case get_value S name of
                      Inl e \<Rightarrow> (Inl e, S)
                    | Inr v \<Rightarrow> on_demonstration S (\<lambda>D. add_constant E D v))) of
             (Inl e, S1) \<Rightarrow> (Inl e, S1)
           | (Inr context_name, S1) \<Rightarrow>
               (case add_to_function_context E S1 names of
                  (Inl e, S2) \<Rightarrow> (Inl e, S2)
                | (Inr context_names, S2) \<Rightarrow> (Inr (context_name # context_names), S2))))"

definition apply_interactive_between :: "env \<Rightarrow> state \<Rightarrow> string \<Rightarrow> string partial" where
  "apply_interactive_between E S function_name =
     (case check_interactive_between S of
        Inl e \<Rightarrow> Some (Inl e, S)
      | Inr _ \<Rightarrow>
          (case get_apply_result E S function_name of
             None \<Rightarrow> None
           | Some (Inl e, S1) \<Rightarrow> Some (Inl e, S1)
           | Some (Inr result, S1) \<Rightarrow>
               (case store_value S1 result of
                  (Inl e, S2) \<Rightarrow> Some (Inl e, S2)
                | (Inr identifier, S2) \<Rightarrow> Some (Inr identifier, unselect_all S2))))"

definition apply_demonstration :: "env \<Rightarrow> state \<Rightarrow> string \<Rightarrow> bool \<Rightarrow> string partial" where
  "apply_demonstration E S function_name is_variable =
     (case check_demonstration S of
        Inl e \<Rightarrow> Some (Inl e, S)
      | Inr _ \<Rightarrow>
          (case get_apply_result E S function_name of
             None \<Rightarrow> None
           | Some (Inl e, S1) \<Rightarrow> Some (Inl e, S1)
           | Some (Inr result, S1) \<Rightarrow>
               (case add_to_function_context E S1 (selected S1 @ [(function_name, is_variable)]) of
                  (Inl e, S2) \<Rightarrow> Some (Inl e, S2)
                | (Inr names, S2) \<Rightarrow>
                    (case on_demonstration S2
                            (\<lambda>D. add_function_application D (last names # butlast names) result) of
                       (Inl e, S3) \<Rightarrow> Some (Inl e, S3)
                     | (Inr identifier, S3) \<Rightarrow> Some (Inr identifier, unselect_all S3)))))"

text \<open>
  The \<^verbatim>\<open>try ... except Exception\<close> of the four transactional methods: an exception of the body
  restores the snapshot and is raised again.
\<close>

definition restoring :: "state_snap \<Rightarrow> 'a partial \<Rightarrow> 'a partial" where
  "restoring state_snap body =
     (case body of
        None \<Rightarrow> None
      | Some (Inl e, S') \<Rightarrow> Some (Inl e, state_restore S' state_snap)
      | Some (Inr r, S') \<Rightarrow> Some (Inr r, S'))"

definition "apply" :: "env \<Rightarrow> state \<Rightarrow> string \<Rightarrow> bool \<Rightarrow> string partial" where
  "apply E S function_name is_variable =
     (let state_snap = state_copy S in
      restoring state_snap
        (if current_mode S = ''INTERACTIVE'' \<or> current_mode S = ''BETWEEN''
         then apply_interactive_between E S function_name
         else if current_mode S = ''DEMONSTRATION''
         then apply_demonstration E S function_name is_variable
         else Some (Inl AssertionError, S)))"

definition recurse :: "env \<Rightarrow> state \<Rightarrow> string partial" where
  "recurse E S =
     (case check_demonstration S of
        Inl e \<Rightarrow> Some (Inl e, S)
      | Inr _ \<Rightarrow>
          (let state_snap = state_copy S in
           restoring state_snap
             (case add_to_function_context E S (selected S) of
                (Inl e, S1) \<Rightarrow> Some (Inl e, S1)
              | (Inr names, S1) \<Rightarrow>
                  (case get_apply_result E S1 ''self'' of
                     None \<Rightarrow> None
                   | Some (Inl e, S2) \<Rightarrow> Some (Inl e, S2)
                   | Some (Inr result, S2) \<Rightarrow>
                       (case on_demonstration S2
                               (\<lambda>D. add_recursive_application D (''self'' # names) result) of
                          (Inl e, S3) \<Rightarrow> Some (Inl e, S3)
                        | (Inr temp_name, S3) \<Rightarrow> Some (Inr temp_name, unselect_all S3))))))"

text \<open>The body of \<^verbatim>\<open>branch\<close> calls no function and no unifier, so it always returns.\<close>

definition branch_body :: "env \<Rightarrow> state \<Rightarrow> unit total" where
  "branch_body E S =
     (if length (selected S) \<noteq> 1 then (Inl ValueError, S)
      else if \<not> snd (selected S ! 0) then (Inl ValueError, S)
      else
        (case get_value S (fst (selected S ! 0)) of
           Inl e \<Rightarrow> (Inl e, S)
         | Inr cond_value \<Rightarrow>
             (case infer_value_type cond_value of
                Inl e \<Rightarrow> (Inl e, S)
              | Inr selected_type \<Rightarrow>
                  if selected_type \<noteq> Bool then (Inl TypeError, S)
                  else
                    (case add_to_function_context E S (selected S) of
                       (Inl e, S1) \<Rightarrow> (Inl e, S1)
                     | (Inr names, S1) \<Rightarrow>
                         (case names of
                            [] \<Rightarrow> (Inl IndexError, S1)
                          | cond_name # _ \<Rightarrow>
                              (case on_demonstration S1
                                      (\<lambda>D. branch_demo D cond_name (py_truth E cond_value)) of
                                 (Inl e, S2) \<Rightarrow> (Inl e, S2)
                               | (Inr _, S2) \<Rightarrow> (Inr (), unselect_all S2)))))))"

definition branch :: "env \<Rightarrow> state \<Rightarrow> unit partial" where
  "branch E S =
     (case check_demonstration S of
        Inl e \<Rightarrow> Some (Inl e, S)
      | Inr _ \<Rightarrow>
          (let state_snap = state_copy S in restoring state_snap (Some (branch_body E S))))"

definition ret_body ::
  "env \<Rightarrow> state \<Rightarrow> (string list list \<times> string option) partial" where
  "ret_body E S =
     (if length (selected S) \<noteq> 1 then Some (Inl ValueError, S)
      else
        (case add_to_function_context E S (selected S) of
           (Inl e, S1) \<Rightarrow> Some (Inl e, S1)
         | (Inr names, S1) \<Rightarrow>
             (case names of
                [] \<Rightarrow> Some (Inl IndexError, S1)
              | ret_name # _ \<Rightarrow>
                  (case on_demonstration S1 (\<lambda>D. ret_demo D ret_name) of
                     (Inl e, S2) \<Rightarrow> Some (Inl e, S2)
                   | (Inr _, S2) \<Rightarrow>
                       (let S3 = unselect_all S2 in
                        case current_demonstration S3 of
                          None \<Rightarrow> Some (Inl AttributeError, S3)
                        | Some D \<Rightarrow>
                            (let remaining = remaining_examples_demo D in
                             if remaining \<noteq> [] then
                               Some (Inr (remaining, None),
                                     set_between (S3\<lparr>current_demonstration := Some (prepare D)\<rparr>))
                             else
                               (case get_unique_id S3 of (uid, S4) \<Rightarrow>
                                  (case generate_function D uid of
                                     None \<Rightarrow> None
                                   | Some (Inl e) \<Rightarrow> Some (Inl e, S4)
                                   | Some (Inr f) \<Rightarrow>
                                       (case add_function (st_functions S4) f of
                                          (function_name, F) \<Rightarrow>
                                            Some (Inr (remaining, Some function_name),
                                                  set_interactive
                                                    (S4\<lparr>st_functions := F,
                                                        current_demonstration := None\<rparr>)))))))))))"

definition ret :: "env \<Rightarrow> state \<Rightarrow> (string list list \<times> string option) partial" where
  "ret E S =
     (case check_demonstration S of
        Inl e \<Rightarrow> Some (Inl e, S)
      | Inr _ \<Rightarrow> (let state_snap = state_copy S in restoring state_snap (ret_body E S)))"

definition cont :: "state \<Rightarrow> unit total" where
  "cont S =
     (case check_between S of
        Inl e \<Rightarrow> (Inl e, S)
      | Inr _ \<Rightarrow> (Inr (), set_demonstration S))"

subsection \<open>The public methods that change the state\<close>

datatype call =
    Create_register "value"
  | Delete_register string
  | Update_register string "value"
  | Create_list "value"
  | Update_list string "value"
  | Delete_list string
  | Append_to_list string "value"
  | Insert_list_element string "value" int
  | Update_list_element string "value" int
  | Delete_list_element string int
  | Create_function
  | Delete_function string
  | Select string bool
  | Unselect int
  | Unselect_all
  | Apply string bool
  | Recurse
  | Branch
  | Ret
  | Cont

text \<open>
  \<open>run E c S\<close> is the state after the call \<open>c\<close> on the state \<open>S\<close>, with the exception the call
  raised, if any; \<open>None\<close> when the call does not return.
\<close>

definition outcome :: "'a total \<Rightarrow> (error option \<times> state) option" where
  "outcome r = (case r of (Inl e, S) \<Rightarrow> Some (Some e, S) | (Inr _, S) \<Rightarrow> Some (None, S))"

definition outcome_partial :: "'a partial \<Rightarrow> (error option \<times> state) option" where
  "outcome_partial r = (case r of None \<Rightarrow> None | Some t \<Rightarrow> outcome t)"

fun run :: "env \<Rightarrow> call \<Rightarrow> state \<Rightarrow> (error option \<times> state) option" where
  "run E (Create_register v) S = outcome (create_register_st S v)"
| "run E (Delete_register r) S = outcome (delete_register_st S r)"
| "run E (Update_register r v) S = outcome (update_register_st S r v)"
| "run E (Create_list v) S = outcome (create_list_st S v)"
| "run E (Update_list l v) S = outcome (update_list_st S l v)"
| "run E (Delete_list l) S = outcome (delete_list_st S l)"
| "run E (Append_to_list l v) S = outcome (append_to_list_st S l v)"
| "run E (Insert_list_element l v i) S = outcome (insert_list_element_st S l v i)"
| "run E (Update_list_element l v i) S = outcome (update_list_element_st S l v i)"
| "run E (Delete_list_element l i) S = outcome (delete_list_element_st S l i)"
| "run E Create_function S = outcome (create_function S)"
| "run E (Delete_function f) S = outcome (delete_function_st S f)"
| "run E (Select n v) S = outcome (select S n v)"
| "run E (Unselect i) S = outcome (unselect S i)"
| "run E Unselect_all S = Some (None, unselect_all S)"
| "run E (Apply f v) S = outcome_partial (apply E S f v)"
| "run E Recurse S = outcome_partial (recurse E S)"
| "run E Branch S = outcome_partial (branch E S)"
| "run E Ret S = outcome_partial (ret E S)"
| "run E Cont S = outcome (cont S)"

text \<open>The states that sequences of calls produce from the initial state.\<close>

inductive reachable :: "env \<Rightarrow> state \<Rightarrow> bool" for E where
  reachable_init: "reachable E state_init"
| reachable_run: "reachable E S \<Longrightarrow> run E c S = Some (r, S') \<Longrightarrow> reachable E S'"

text \<open>
  Two concrete states: a new \<^verbatim>\<open>State\<close> after \<^verbatim>\<open>create_register(3)\<close>, \<^verbatim>\<open>create_list([1])\<close> and
  \<^verbatim>\<open>create_function()\<close>, and the same after \<^verbatim>\<open>select("r0", True)\<close> in addition.
\<close>

definition example_state_0 :: state where
  "example_state_0 =
     snd (create_function
       (snd (create_list_st (snd (create_register_st state_init (VInt 3))) (VList [VInt 1]))))"

definition example_state :: state where
  "example_state = snd (select example_state_0 ''r0'' True)"


section \<open>Lists as objects on a heap (backend/lists.py)\<close>

text \<open>
  To see what a caller that keeps a reference can do, list objects live on a heap: a reference
  is an index into the heap, and the cell at that index is the current content of the list
  object. The dictionary of \<^verbatim>\<open>Lists\<close> maps names to references. The elements of a list that
  passes \<^verbatim>\<open>_check_list_elements\<close> are numbers or booleans, which are immutable, so
  \<^verbatim>\<open>copy.deepcopy\<close> of such a list is a new list object with the same elements.
\<close>

type_synonym ref = nat

type_synonym heap = "value list list"

record heap_lists =
  hl_dict :: "(string \<times> ref) list"
  hl_next_id :: int

definition heap_lists_init :: heap_lists where
  "heap_lists_init = \<lparr>hl_dict = [], hl_next_id = 0\<rparr>"

definition deepcopy :: "heap \<Rightarrow> ref \<Rightarrow> ref \<times> heap" where
  "deepcopy h r = (length h, h @ [h ! r])"

text \<open>\<^verbatim>\<open>create_list(value)\<close> and \<^verbatim>\<open>update_list(list_name, value)\<close>, given a reference to \<^verbatim>\<open>value\<close>.\<close>

definition create_list_h ::
  "heap \<Rightarrow> heap_lists \<Rightarrow> ref \<Rightarrow> (error + string) \<times> heap \<times> heap_lists" where
  "create_list_h h L r =
     (case check_list_elements (VList (h ! r)) of
        Inl e \<Rightarrow> (Inl e, h, L)
      | Inr _ \<Rightarrow>
          (let list_name = ''l'' @ str_int (hl_next_id L);
               (r', h') = deepcopy h r
           in (Inr list_name, h',
               L\<lparr>hl_dict := AList.update list_name r' (hl_dict L),
                 hl_next_id := hl_next_id L + 1\<rparr>)))"

definition update_list_h ::
  "heap \<Rightarrow> heap_lists \<Rightarrow> string \<Rightarrow> ref \<Rightarrow> (error + unit) \<times> heap \<times> heap_lists" where
  "update_list_h h L list_name r =
     (if list_name \<notin> fst ` set (hl_dict L) then (Inl ValueError, h, L)
      else
        (case check_list_elements (VList (h ! r)) of
           Inl e \<Rightarrow> (Inl e, h, L)
         | Inr _ \<Rightarrow>
             (let (r', h') = deepcopy h r
              in (Inr (), h', L\<lparr>hl_dict := AList.update list_name r' (hl_dict L)\<rparr>))))"

text \<open>\<^verbatim>\<open>get_list\<close> returns \<^verbatim>\<open>self._lists[list_name]\<close>: the reference in the dictionary.\<close>

definition get_list_h :: "heap_lists \<Rightarrow> string \<Rightarrow> error + ref" where
  "get_list_h L list_name = lookup (hl_dict L) list_name"

text \<open>
  A caller that holds a reference appends to the list object: \<^verbatim>\<open>xs.append(v)\<close>. \<open>stored_value\<close>
  is the content of the list that the store yields for a name at a later time.
\<close>

definition caller_append :: "heap \<Rightarrow> ref \<Rightarrow> value \<Rightarrow> heap" where
  "caller_append h r v = h[r := h ! r @ [v]]"

definition stored_value :: "heap \<Rightarrow> heap_lists \<Rightarrow> string \<Rightarrow> error + value list" where
  "stored_value h L list_name =
     (case get_list_h L list_name of Inl e \<Rightarrow> Inl e | Inr r \<Rightarrow> Inr (h ! r))"

section \<open>Notions of the specification\<close>

text \<open>
  The equation at position \<open>i\<close> of a list is in solved form: its left-hand side is a variable
  that occurs neither in its own right-hand side nor anywhere in another equation of the list.
\<close>

definition solved_at :: "equation list \<Rightarrow> nat \<Rightarrow> bool" where
  "solved_at S i \<longleftrightarrow>
     (\<exists>x. fst (S ! i) = Var x \<and> x \<notin> free_variables (snd (S ! i)) \<and>
        (\<forall>j < length S. j \<noteq> i \<longrightarrow>
           x \<notin> free_variables (fst (S ! j)) \<and> x \<notin> free_variables (snd (S ! j))))"

text \<open>
  The supported fragment in the words of the specification: a \<^verbatim>\<open>List\<close> may contain only
  \<^verbatim>\<open>Num\<close>, \<^verbatim>\<open>Bool\<close> or a variable, and \<^verbatim>\<open>App\<close> recurses.
\<close>

fun supported :: "tm \<Rightarrow> bool" where
  "supported (Var _) = True"
| "supported Num = True"
| "supported Bool = True"
| "supported (List a) = (a = Num \<or> a = Bool \<or> is_Var a)"
| "supported (App a b) = (supported a \<and> supported b)"

text \<open>
  \<open>reaches equations final\<close>: the run of \<^verbatim>\<open>unify\<close> on \<open>equations\<close> arrives, by applying
  rules, at a call on \<open>final\<close>. \<open>no_rule_applies\<close>: the loop over the indices of a non-empty
  list finds no applicable rule.
\<close>

inductive reaches :: "equation list \<Rightarrow> equation list \<Rightarrow> bool" where
  reaches_here: "reaches equations equations"
| reaches_step: "equations \<noteq> [] \<Longrightarrow>
     try_rules equations [0..<length equations] = Inr (Some result) \<Longrightarrow>
     reaches result final \<Longrightarrow> reaches equations final"

definition no_rule_applies :: "equation list \<Rightarrow> bool" where
  "no_rule_applies equations \<longleftrightarrow>
     equations \<noteq> [] \<and> try_rules equations [0..<length equations] = Inr None"

text \<open>
  Alpha equivalence of type terms: \<open>t'\<close> is \<open>t\<close> with its variables renamed, different variables
  receiving different names.
\<close>

fun rename :: "(string \<Rightarrow> string) \<Rightarrow> tm \<Rightarrow> tm" where
  "rename r (Var x) = Var (r x)"
| "rename r Num = Num"
| "rename r Bool = Bool"
| "rename r (List a) = List (rename r a)"
| "rename r (App a b) = App (rename r a) (rename r b)"

definition alpha_equivalent :: "tm \<Rightarrow> tm \<Rightarrow> bool" where
  "alpha_equivalent t t' \<longleftrightarrow> (\<exists>r. inj_on r (free_variables t) \<and> t' = rename r t)"

text \<open>
  The demonstration is present exactly in demonstration and between mode and absent exactly in
  interactive mode. \<open>same_shape\<close>: two states agree on the mode and on whether a demonstration
  is present.
\<close>

definition demonstration_matches_mode :: "state \<Rightarrow> bool" where
  "demonstration_matches_mode S \<longleftrightarrow>
     (current_demonstration S \<noteq> None) = (is_demonstration S \<or> is_between S) \<and>
     (current_demonstration S = None) = is_interactive S"

definition same_shape :: "state \<Rightarrow> state \<Rightarrow> bool" where
  "same_shape S S' \<longleftrightarrow>
     mode S' = mode S \<and> (current_demonstration S' = None) = (current_demonstration S = None)"


section \<open>Properties of the unifier\<close>

lemma no_rule_solved:
  assumes "apply_rule eqs i = Inr (r, False)"
  shows "i < length eqs \<and> (\<exists>x. fst (eqs ! i) = Var x \<and> x \<notin> free_variables (snd (eqs ! i))
        \<and> x \<notin> free_variables_equations (take i eqs @ drop (Suc i) eqs))"
proof -
  from assms have i: "i < length eqs" by (auto simp: apply_rule_def split: if_splits)
  obtain l r' where lr: "eqs ! i = (l, r')" by (cases "eqs ! i")
  show ?thesis
  proof (cases l)
    case (Var x)
    with assms i lr show ?thesis
      by (cases r') (auto simp: apply_rule_def Let_def split: if_splits sum.splits)
  next
    case Num
    with assms i lr show ?thesis
      by (cases r') (auto simp: apply_rule_def Let_def split: if_splits sum.splits)
  next
    case Bool
    with assms i lr show ?thesis
      by (cases r') (auto simp: apply_rule_def Let_def split: if_splits sum.splits)
  next
    case (List a)
    with assms i lr show ?thesis
      by (cases r') (auto simp: apply_rule_def Let_def split: if_splits sum.splits)
  next
    case (App a b)
    with assms i lr show ?thesis
      by (cases r') (auto simp: apply_rule_def Let_def split: if_splits sum.splits)
  qed
qed

lemma try_rules_None:
  "try_rules eqs idxs = Inr None \<Longrightarrow> i \<in> set idxs \<Longrightarrow> \<exists>r. apply_rule eqs i = Inr (r, False)"
  by (induction idxs) (auto split: sum.splits prod.splits if_splits)

lemma free_variables_equations_set:
  "free_variables_equations eqs = (\<Union>e \<in> set eqs. free_variables (fst e) \<union> free_variables (snd e))"
  by (induction eqs) auto

lemma nth_in_rest:
  assumes "j < length S" "j \<noteq> i"
  shows "S ! j \<in> set (take i S @ drop (Suc i) S)"
proof (cases "j < i")
  case True
  with assms have "S ! j = take i S ! j" "j < length (take i S)" by simp_all
  then show ?thesis by (metis nth_mem set_append UnI1)
next
  case False
  with assms have ji: "Suc i \<le> j" by simp
  with assms have "S ! j = drop (Suc i) S ! (j - Suc i)" "j - Suc i < length (drop (Suc i) S)"
    by simp_all
  then show ?thesis by (metis nth_mem set_append UnI2)
qed

lemma no_rule_solved_at:
  assumes "try_rules eqs [0..<length eqs] = Inr None" "i < length eqs"
  shows "solved_at eqs i"
proof -
  from assms have "i \<in> set [0..<length eqs]" by simp
  from try_rules_None[OF assms(1) this] obtain r where "apply_rule eqs i = Inr (r, False)" ..
  from no_rule_solved[OF this] obtain x where x: "fst (eqs ! i) = Var x"
    "x \<notin> free_variables (snd (eqs ! i))"
    "x \<notin> free_variables_equations (take i eqs @ drop (Suc i) eqs)" by blast
  have "x \<notin> free_variables (fst (eqs ! j)) \<and> x \<notin> free_variables (snd (eqs ! j))"
    if "j < length eqs" "j \<noteq> i" for j
    using x(3) nth_in_rest[OF that] unfolding free_variables_equations_set by blast
  with x show ?thesis unfolding solved_at_def by blast
qed

lemma check_type_supported: "check_type t = Inr () \<longleftrightarrow> supported t"
  by (induction t rule: check_type.induct) (auto split: sum.splits)

lemma check_list_supported:
  "check_list c = Inr () \<longleftrightarrow> (\<forall>e \<in> set c. supported (fst e) \<and> supported (snd e))"
  by (induction c)
     (auto simp: check_equation_def check_type_supported[symmetric] split: sum.splits)

lemma check_type_error: "check_type t = Inl e \<Longrightarrow> e = ValueError"
  by (induction t rule: check_type.induct) (auto split: sum.splits)

lemma check_list_error: "check_list c = Inl e \<Longrightarrow> e = ValueError"
  by (induction c) (auto simp: check_equation_def split: sum.splits dest: check_type_error)

lemma unify_returns_aux:
  assumes "unify eqs = Some y"
  shows "\<forall>S. y = Inr S \<longrightarrow> (\<forall>i < length S. solved_at S i) \<and> check_list S = Inr ()"
proof (rule unify.raw_induct
    [where P = "\<lambda>eqs y. \<forall>S. y = Inr S \<longrightarrow> (\<forall>i < length S. solved_at S i) \<and> check_list S = Inr ()",
     OF _ assms])
  fix f :: "equation list \<Rightarrow> (error + equation list) option" and equations y
  assume IH: "\<And>x y. f x = Some y \<Longrightarrow>
      \<forall>S. y = Inr S \<longrightarrow> (\<forall>i < length S. solved_at S i) \<and> check_list S = Inr ()"
  assume body: "(if equations = [] then Some (Inr [])
      else
        (case try_rules equations [0..<length equations] of
           Inl e \<Rightarrow> Some (Inl e)
         | Inr (Some result) \<Rightarrow> f result
         | Inr None \<Rightarrow>
             (case check_list equations of
                Inl e \<Rightarrow> Some (Inl e)
              | Inr _ \<Rightarrow> Some (Inr equations)))) = Some y"
  show "\<forall>S. y = Inr S \<longrightarrow> (\<forall>i < length S. solved_at S i) \<and> check_list S = Inr ()"
  proof (cases "equations = []")
    case True
    with body show ?thesis by auto
  next
    case False
    show ?thesis
    proof (cases "try_rules equations [0..<length equations]")
      case (Inl e)
      with body False show ?thesis by auto
    next
      case (Inr ro)
      show ?thesis
      proof (cases ro)
        case None
        with Inr body False no_rule_solved_at[of equations] show ?thesis
          by (auto split: sum.splits)
      next
        case (Some result)
        with Inr body False have "f result = Some y" by simp
        from IH[OF this] show ?thesis .
      qed
    qed
  qed
qed

lemma unify_Nil: "unify [] = Some (Inr [])"
  by (subst unify.simps) simp

lemma unify_step:
  "equations \<noteq> [] \<Longrightarrow> try_rules equations [0..<length equations] = Inr (Some result)
     \<Longrightarrow> unify equations = unify result"
  by (subst unify.simps) simp

lemma unify_stop:
  "equations \<noteq> [] \<Longrightarrow> try_rules equations [0..<length equations] = Inr None
     \<Longrightarrow> unify equations =
        (case check_list equations of Inl e \<Rightarrow> Some (Inl e) | Inr _ \<Rightarrow> Some (Inr equations))"
  by (subst unify.simps) simp

lemma unify_raise:
  "equations \<noteq> [] \<Longrightarrow> try_rules equations [0..<length equations] = Inl e
     \<Longrightarrow> unify equations = Some (Inl e)"
  by (subst unify.simps) simp

lemma reaches_unify: "reaches equations final \<Longrightarrow> unify equations = unify final"
  by (induction rule: reaches.induct) (simp_all add: unify_step)

text \<open>
  C2. Whenever \<^verbatim>\<open>unify\<close> returns a list, every equation of that list has a variable on its
  left-hand side that occurs neither in its own right-hand side nor anywhere in any other
  equation of the list; in particular the left-hand sides are pairwise different.
\<close>

theorem unify_solved_form:
  assumes "unify equations = Some (Inr S)"
  shows "(\<forall>i < length S. solved_at S i) \<and> distinct (map fst S)"
proof -
  from unify_returns_aux[OF assms] have sol: "\<forall>i < length S. solved_at S i" by simp
  have "fst (S ! i) \<noteq> fst (S ! j)" if "i < length S" "j < length S" "i \<noteq> j" for i j
  proof
    assume eq: "fst (S ! i) = fst (S ! j)"
    from sol that(1) obtain x where x: "fst (S ! i) = Var x"
      "\<forall>j < length S. j \<noteq> i \<longrightarrow> x \<notin> free_variables (fst (S ! j))"
      unfolding solved_at_def by blast
    from x(2) that have "x \<notin> free_variables (fst (S ! j))" by blast
    moreover from eq x(1) have "fst (S ! j) = Var x" by simp
    ultimately show False by simp
  qed
  then have "distinct (map fst S)"
    by (simp add: distinct_conv_nth)
  with sol show ?thesis by simp
qed

theorem unify_solved_form_witness:
  "unify [(App (Var ''a'') Num, App Bool (Var ''b''))]
     = Some (Inr [(Var ''a'', Bool), (Var ''b'', Num)])
   \<and> solved_at [(Var ''a'', Bool), (Var ''b'', Num)] 0
   \<and> solved_at [(Var ''a'', Bool), (Var ''b'', Num)] 1
   \<and> distinct (map fst [(Var ''a'', Bool), (Var ''b'', Num)])"
proof -
  have h: "unify [(App (Var ''a'') Num, App Bool (Var ''b''))]
     = Some (Inr [(Var ''a'', Bool), (Var ''b'', Num)])"
    by (subst unify.simps, simp add: apply_rule_def upt_rec check_equation_def)+
  from unify_solved_form[OF h] h show ?thesis by simp
qed

text \<open>
  C3. A list that \<^verbatim>\<open>unify\<close> returns contains supported terms only. When the run on
  \<open>equations'\<close> arrives at a list \<open>final\<close> to which no rule applies and \<open>final\<close> contains a term
  outside the supported fragment, the call raises \<^verbatim>\<open>ValueError\<close> (the unsupported-type
  failure) instead of returning. In particular \<^verbatim>\<open>List(List(Num))\<close> and \<^verbatim>\<open>List(App(Num, Num))\<close>
  are rejected.
\<close>

theorem unify_support_filter:
  "(unify equations = Some (Inr S) \<longrightarrow> (\<forall>(l, r) \<in> set S. supported l \<and> supported r))
   \<and> (reaches equations' final \<and> no_rule_applies final
        \<and> (\<exists>(l, r) \<in> set final. \<not> supported l \<or> \<not> supported r)
      \<longrightarrow> unify equations' = Some (Inl ValueError))
   \<and> unify [(Var x, List (List Num))] = Some (Inl ValueError)
   \<and> unify [(Var x, List (App Num Num))] = Some (Inl ValueError)"
proof (intro conjI impI)
  assume "unify equations = Some (Inr S)"
  from unify_returns_aux[OF this] have "check_list S = Inr ()" by simp
  then show "\<forall>(l, r) \<in> set S. supported l \<and> supported r"
    by (auto simp: check_list_supported)
next
  assume a: "reaches equations' final \<and> no_rule_applies final
        \<and> (\<exists>(l, r) \<in> set final. \<not> supported l \<or> \<not> supported r)"
  then have "check_list final \<noteq> Inr ()" by (fastforce simp: check_list_supported)
  then obtain e where "check_list final = Inl e" by (cases "check_list final") auto
  with check_list_error[OF this] have "check_list final = Inl ValueError" by simp
  with a have "unify final = Some (Inl ValueError)"
    by (simp add: unify_stop no_rule_applies_def)
  moreover from a have "unify equations' = unify final" by (simp add: reaches_unify)
  ultimately show "unify equations' = Some (Inl ValueError)" by simp
next
  show "unify [(Var x, List (List Num))] = Some (Inl ValueError)"
    by (subst unify.simps) (simp add: apply_rule_def check_equation_def)
next
  show "unify [(Var x, List (App Num Num))] = Some (Inl ValueError)"
    by (subst unify.simps) (simp add: apply_rule_def check_equation_def)
qed

theorem unify_support_filter_witness:
  "unify [(App (Var ''a'') Num, App Bool (Var ''b''))]
     = Some (Inr [(Var ''a'', Bool), (Var ''b'', Num)])
   \<and> supported (Var ''a'') \<and> supported Bool \<and> supported (Var ''b'') \<and> supported Num
   \<and> reaches [(List (Var ''a''), List (List (List Num)))] [(Var ''a'', List (List Num))]
   \<and> no_rule_applies [(Var ''a'', List (List Num))]
   \<and> (\<exists>(l, r) \<in> set [(Var ''a'', List (List Num))]. \<not> supported l \<or> \<not> supported r)
   \<and> unify [(List (Var ''a''), List (List (List Num)))] = Some (Inl ValueError)"
proof -
  have h1: "unify [(App (Var ''a'') Num, App Bool (Var ''b''))]
     = Some (Inr [(Var ''a'', Bool), (Var ''b'', Num)])"
    by (subst unify.simps, simp add: apply_rule_def upt_rec check_equation_def)+
  have "try_rules [(List (Var ''a''), List (List (List Num)))]
          [0..<length [(List (Var ''a''), List (List (List Num)))]]
        = Inr (Some [(Var ''a'', List (List Num))])"
    by (simp add: apply_rule_def)
  then have h2: "reaches [(List (Var ''a''), List (List (List Num)))] [(Var ''a'', List (List Num))]"
    by (intro reaches_step[OF _ _ reaches_here]) simp_all
  have h3: "no_rule_applies [(Var ''a'', List (List Num))]"
    by (simp add: no_rule_applies_def apply_rule_def)
  have h4: "\<exists>(l, r) \<in> set [(Var ''a'', List (List Num))]. \<not> supported l \<or> \<not> supported r"
    by simp
  from unify_support_filter
         [of "[(App (Var ''a'') Num, App Bool (Var ''b''))]" "[(Var ''a'', Bool), (Var ''b'', Num)]"
             "[(List (Var ''a''), List (List (List Num)))]" "[(Var ''a'', List (List Num))]"]
       h1 h2 h3 h4
  show ?thesis by simp
qed


section \<open>The catalogue of built-in signatures\<close>

text \<open>
  C5. The claim is that \<^verbatim>\<open>filter\<close> has the signature (a \<rightarrow> Bool) \<rightarrow> [a] \<rightarrow> [a], with the
  element type of the result the same variable as that of the input. The dictionary entry,
  however, builds the result from \<^verbatim>\<open>list_type_variable_1\<close>: the signature in the code is
  (y0 \<rightarrow> Bool) \<rightarrow> [y0] \<rightarrow> [y1], against the comment next to it.
\<close>

theorem filter_signature_in_code:
  "map_of supported_operations ''filter''
     = Some (App (App (Var ''y0'') Bool) (App (List (Var ''y0'')) (List (Var ''y1''))))
   \<and> map_of supported_operations ''filter''
     \<noteq> Some (App (App (Var ''y0'') Bool) (App (List (Var ''y0'')) (List (Var ''y0''))))"
  by (simp add: supported_operations_def arithmetic_operations_def comparison_operations_def
      boolean_operations_def list_operations_def type_variable_0_def type_variable_1_def
      list_type_variable_0_def list_type_variable_1_def FUNCTION_TYPE_PREFIX_def)


section \<open>Built-in functions on the empty list\<close>

lemma iteration_order_singleton:
  assumes "iteration_order it"
  shows "it {x} = [x]"
proof -
  from assms have s: "set (it {x}) = {x}" and d: "distinct (it {x})"
    by (simp_all add: iteration_order_def)
  show ?thesis
  proof (cases "it {x}")
    case Nil
    with s show ?thesis by simp
  next
    case (Cons a as)
    with s d have "a = x" "set as \<subseteq> {x}" "a \<notin> set as" by auto
    then have "as = []" by (cases as) auto
    with Cons \<open>a = x\<close> show ?thesis by simp
  qed
qed

lemma str_int_0: "str_int 0 = ''0''"
  by (simp add: str_int_def str_nat.simps digit_char_def)

lemma input_context_empty_list:
  assumes "iteration_order it" "\<not> is_App t"
  shows "input_context it (BuiltinFunction b (App list_type_variable_0 t) u) [VList []]
           = Some (Inr [(''in0'', VList [])])"
proof -
  have a: "infer_argument_signature it [VList []] = Inr (List (Var ''z0''))"
    by (simp add: infer_argument_signature_def alpha_conversion_def
        iteration_order_singleton[OF assms(1)] ARGUMENT_TYPE_PREFIX_def str_int_0)
  from assms(2) have "decompose_term t = [t]" by (cases t) simp_all
  then have d: "drop_last_type_app (App list_type_variable_0 t) = Inr (List (Var ''y0''))"
    by (simp add: drop_last_type_app_def list_type_variable_0_def type_variable_0_def
        FUNCTION_TYPE_PREFIX_def)
  have u: "unify [(List (Var ''z0''), List (Var ''y0''))] = Some (Inr [(Var ''z0'', Var ''y0'')])"
    by (subst unify.simps, simp add: apply_rule_def upt_rec check_equation_def)+
  show ?thesis
    by (simp add: input_context_def a d u str_int_0)
qed

lemma compute_on_empty_list:
  assumes "iteration_order (itr E)" "\<not> is_App t" "b \<noteq> ''map''" "b \<noteq> ''filter''"
  shows "compute E (BuiltinFunction b (App list_type_variable_0 t) u) [VList []]
           = Some (compute_simple E b [(''in0'', VList [])])"
  using assms(3,4) by (simp add: input_context_empty_list[OF assms(1,2)])

text \<open>
  C4. The claim is that \<^verbatim>\<open>head\<close>, \<^verbatim>\<open>last\<close>, \<^verbatim>\<open>tail\<close> and \<^verbatim>\<open>init\<close> all raise \<^verbatim>\<open>AlgotRuntimeError\<close> on
  the empty list. \<^verbatim>\<open>head\<close> and \<^verbatim>\<open>last\<close> do. \<^verbatim>\<open>tail\<close> and \<^verbatim>\<open>init\<close> take the slices \<^verbatim>\<open>[1:]\<close> and
  \<^verbatim>\<open>[:-1]\<close>, which never raise \<^verbatim>\<open>IndexError\<close>, so their \<^verbatim>\<open>except IndexError\<close> handlers are dead
  and the call returns the empty list.
\<close>

theorem empty_list_operations:
  assumes "iteration_order (itr E)"
  shows "compute E (BuiltinFunction ''tail'' (App list_type_variable_0 list_type_variable_0) u)
           [VList []] = Some (Inr (VList []))
       \<and> compute E (BuiltinFunction ''init'' (App list_type_variable_0 list_type_variable_0) u)
           [VList []] = Some (Inr (VList []))
       \<and> compute E (BuiltinFunction ''head'' (App list_type_variable_0 type_variable_0) u)
           [VList []] = Some (Inl AlgotRuntimeError)
       \<and> compute E (BuiltinFunction ''last'' (App list_type_variable_0 type_variable_0) u)
           [VList []] = Some (Inl AlgotRuntimeError)"
proof -
  have l: "\<not> is_App list_type_variable_0" by (simp add: list_type_variable_0_def)
  have v: "\<not> is_App type_variable_0" by (simp add: type_variable_0_def)
  have "compute_simple E ''tail'' [(''in0'', VList [])] = Inr (VList [])"
    by (simp add: compute_simple_def unary_def lookup_def)
  moreover have "compute_simple E ''init'' [(''in0'', VList [])] = Inr (VList [])"
    by (simp add: compute_simple_def unary_def lookup_def)
  moreover have "compute_simple E ''head'' [(''in0'', VList [])] = Inl AlgotRuntimeError"
    by (simp add: compute_simple_def unary_def lookup_def)
  moreover have "compute_simple E ''last'' [(''in0'', VList [])] = Inl AlgotRuntimeError"
    by (simp add: compute_simple_def unary_def lookup_def)
  ultimately show ?thesis
    by (simp add: compute_on_empty_list[OF assms l] compute_on_empty_list[OF assms v] del: compute.simps)
qed


theorem empty_list_operations_witness:
  "iteration_order (itr example_env)
   \<and> compute example_env
       (BuiltinFunction ''tail'' (App list_type_variable_0 list_type_variable_0) 18) [VList []]
     = Some (Inr (VList []))
   \<and> compute example_env
       (BuiltinFunction ''head'' (App list_type_variable_0 type_variable_0) 16) [VList []]
     = Some (Inl AlgotRuntimeError)"
proof -
  have h: "iteration_order (itr example_env)"
    by (simp add: example_env_def iteration_order_def)
  from empty_list_operations[OF h, of 18] empty_list_operations[OF h, of 16] h
  show ?thesis by simp
qed


section \<open>Alpha conversion\<close>

lemma digit_char_inj: "a < 10 \<Longrightarrow> b < 10 \<Longrightarrow> digit_char a = digit_char b \<Longrightarrow> a = b"
proof -
  assume a: "a < 10" and b: "b < 10" and e: "digit_char a = digit_char b"
  have d: "distinct ''0123456789''" by simp
  have l: "length ''0123456789'' = 10" by simp
  from e have "''0123456789'' ! a = ''0123456789'' ! b" by (simp add: digit_char_def)
  with d a b l show "a = b" by (metis nth_eq_iff_index_eq)
qed

lemma str_nat_nonempty: "str_nat n \<noteq> []"
  by (subst str_nat.simps) simp

lemma str_nat_inj: "str_nat n = str_nat m \<Longrightarrow> n = m"
proof (induction n arbitrary: m rule: str_nat.induct)
  case (1 n)
  show ?case
  proof (cases "n < 10")
    case True
    show ?thesis
    proof (cases "m < 10")
      case m: True
      from "1.prems" True m have "digit_char n = digit_char m"
        by (simp add: str_nat.simps[of n] str_nat.simps[of m])
      with True m show ?thesis by (rule digit_char_inj)
    next
      case m: False
      from "1.prems" True m have "[digit_char n] = str_nat (m div 10) @ [digit_char (m mod 10)]"
        by (simp add: str_nat.simps[of n] str_nat.simps[of m])
      then have "str_nat (m div 10) = []" by simp
      with str_nat_nonempty show ?thesis by blast
    qed
  next
    case False
    show ?thesis
    proof (cases "m < 10")
      case m: True
      from "1.prems" False m have "str_nat (n div 10) @ [digit_char (n mod 10)] = [digit_char m]"
        by (simp add: str_nat.simps[of n] str_nat.simps[of m])
      then have "str_nat (n div 10) = []" by simp
      with str_nat_nonempty show ?thesis by blast
    next
      case m: False
      from "1.prems" False m
      have "str_nat (n div 10) @ [digit_char (n mod 10)]
              = str_nat (m div 10) @ [digit_char (m mod 10)]"
        by (simp add: str_nat.simps[of n] str_nat.simps[of m])
      then have e: "str_nat (n div 10) = str_nat (m div 10)"
        "digit_char (n mod 10) = digit_char (m mod 10)" by simp_all
      from "1.IH"[OF False e(1)] have "n div 10 = m div 10" .
      moreover from e(2) have "n mod 10 = m mod 10" by (intro digit_char_inj) simp_all
      ultimately show ?thesis by (metis div_mult_mod_eq)
    qed
  qed
qed

lemma str_int_inj: "0 \<le> i \<Longrightarrow> 0 \<le> j \<Longrightarrow> str_int i = str_int j \<Longrightarrow> i = j"
  by (auto simp: str_int_def dest!: str_nat_inj)

lemma substitute_rename:
  assumes "r v = v" "\<forall>y \<in> free_variables t. y \<noteq> v \<longrightarrow> r y \<noteq> v"
  shows "substitute_term v (Var n) (rename r t) = rename (r(v := n)) t"
  using assms by (induction t) auto

lemma rename_cong: "(\<forall>y \<in> free_variables t. r y = r' y) \<Longrightarrow> rename r t = rename r' t"
  by (induction t) auto

text \<open>The loop with the fresh names absent from the term: a renaming, extended round by round.\<close>

lemma alpha_loop_rename:
  assumes "distinct ws" "set ws \<subseteq> free_variables t" "0 \<le> offset"
    "\<forall>j. offset \<le> j \<and> j < offset + int (length ws) \<longrightarrow> name @ str_int j \<notin> free_variables t"
    "inj_on r (free_variables t)"
    "\<forall>w \<in> set ws. r w = w"
    "\<forall>y \<in> free_variables t. y \<notin> set ws \<longrightarrow> r y \<notin> set ws"
    "\<forall>y \<in> free_variables t. \<forall>j. offset \<le> j \<and> j < offset + int (length ws)
        \<longrightarrow> r y \<noteq> name @ str_int j"
  shows "\<exists>r'. inj_on r' (free_variables t) \<and>
           fst (alpha_loop ws (rename r t) name offset) = rename r' t"
  using assms
proof (induction ws arbitrary: r offset)
  case Nil
  then show ?case by auto
next
  case (Cons v ws)
  let ?n = "name @ str_int offset"
  let ?r = "r(v := ?n)"
  have v: "v \<in> free_variables t" "v \<notin> set ws" "r v = v" using Cons.prems by auto
  have sub: "substitute_term v (Var ?n) (rename r t) = rename ?r t"
  proof (rule substitute_rename)
    show "r v = v" by (rule v)
    show "\<forall>y \<in> free_variables t. y \<noteq> v \<longrightarrow> r y \<noteq> v"
    proof (intro ballI impI)
      fix y assume y: "y \<in> free_variables t" "y \<noteq> v"
      show "r y \<noteq> v"
      proof (cases "y \<in> set ws")
        case True
        with Cons.prems(6) have "r y = y" by simp
        with y show ?thesis by simp
      next
        case False
        with y Cons.prems(7) have "r y \<notin> set (v # ws)" by simp
        then show ?thesis by simp
      qed
    qed
  qed
  have fresh: "r y \<noteq> ?n" if "y \<in> free_variables t" for y
    using Cons.prems(8) that by (auto dest!: bspec[where x = y] spec[where x = offset])
  have inj: "inj_on ?r (free_variables t)"
  proof (rule inj_onI)
    fix a b assume ab: "a \<in> free_variables t" "b \<in> free_variables t" "?r a = ?r b"
    show "a = b"
    proof (cases "a = v")
      case True
      show ?thesis
      proof (cases "b = v")
        case False
        with ab True fresh[of b] show ?thesis by simp
      qed (simp add: True)
    next
      case False
      show ?thesis
      proof (cases "b = v")
        case True
        with ab False fresh[of a] show ?thesis by simp
      next
        case b: False
        with ab False have "r a = r b" by simp
        with Cons.prems(5) ab show ?thesis by (auto dest: inj_onD)
      qed
    qed
  qed
  have nfree: "?n \<notin> free_variables t"
    using Cons.prems(4) by (auto dest!: spec[where x = offset])
  have "\<exists>r'. inj_on r' (free_variables t) \<and>
           fst (alpha_loop ws (rename ?r t) name (offset + 1)) = rename r' t"
  proof (rule Cons.IH)
    show "distinct ws" "set ws \<subseteq> free_variables t" "0 \<le> offset + 1"
      using Cons.prems by auto
    show "\<forall>j. offset + 1 \<le> j \<and> j < offset + 1 + int (length ws)
            \<longrightarrow> name @ str_int j \<notin> free_variables t"
      using Cons.prems(4) by auto
    show "inj_on ?r (free_variables t)" by (rule inj)
    show "\<forall>w \<in> set ws. ?r w = w" using Cons.prems(6) v by auto
    show "\<forall>y \<in> free_variables t. y \<notin> set ws \<longrightarrow> ?r y \<notin> set ws"
    proof (intro ballI impI)
      fix y assume y: "y \<in> free_variables t" "y \<notin> set ws"
      show "?r y \<notin> set ws"
      proof (cases "y = v")
        case True
        from nfree Cons.prems(2) have "?n \<notin> set ws" by auto
        with True show ?thesis by simp
      next
        case False
        with y Cons.prems(7) show ?thesis by simp
      qed
    qed
    show "\<forall>y \<in> free_variables t. \<forall>j. offset + 1 \<le> j \<and> j < offset + 1 + int (length ws)
            \<longrightarrow> ?r y \<noteq> name @ str_int j"
    proof (intro ballI allI impI)
      fix y j assume y: "y \<in> free_variables t"
        and j: "offset + 1 \<le> j \<and> j < offset + 1 + int (length ws)"
      show "?r y \<noteq> name @ str_int j"
      proof (cases "y = v")
        case True
        from j Cons.prems(3) have "str_int offset \<noteq> str_int j"
          by (auto dest!: str_int_inj[rotated 2])
        with True show ?thesis by simp
      next
        case False
        with y j Cons.prems(8) show ?thesis by auto
      qed
    qed
  qed
  with sub show ?case by simp
qed

lemma rename_id: "rename (\<lambda>x. x) t = t"
  by (induction t) auto


lemma alpha_loop_offset: "snd (alpha_loop ws x name offset) = offset + int (length ws)"
  by (induction ws arbitrary: x offset) auto

lemma finite_free_variables: "finite (free_variables t)"
  by (induction t) auto

lemma alpha_conversion_offset:
  assumes "iteration_order it" "0 \<le> offset"
  shows "\<exists>t'. alpha_conversion it t name offset = Inr (t', offset + int (card (free_variables t)))"
proof -
  from assms(1) finite_free_variables[of t]
  have "set (it (free_variables t)) = free_variables t" "distinct (it (free_variables t))"
    by (simp_all add: iteration_order_def)
  then have "length (it (free_variables t)) = card (free_variables t)"
    by (metis distinct_card)
  with assms(2) alpha_loop_offset[of "it (free_variables t)" t name offset] show ?thesis
    by (cases "alpha_loop (it (free_variables t)) t name offset")
       (simp add: alpha_conversion_def)
qed

lemma alpha_conversion_fresh:
  assumes "iteration_order it" "0 \<le> offset"
    "\<forall>j. offset \<le> j \<and> j < offset + int (card (free_variables t))
        \<longrightarrow> name @ str_int j \<notin> free_variables t"
  shows "\<exists>t'. alpha_conversion it t name offset
                 = Inr (t', offset + int (card (free_variables t)))
              \<and> alpha_equivalent t t'"
proof -
  let ?ws = "it (free_variables t)"
  from assms(1) finite_free_variables[of t]
  have ws: "set ?ws = free_variables t" "distinct ?ws"
    by (simp_all add: iteration_order_def)
  then have len: "length ?ws = card (free_variables t)"
    by (metis distinct_card)
  have "\<exists>r'. inj_on r' (free_variables t) \<and>
           fst (alpha_loop ?ws (rename (\<lambda>x. x) t) name offset) = rename r' t"
  proof (rule alpha_loop_rename)
    show "distinct ?ws" "set ?ws \<subseteq> free_variables t" "0 \<le> offset"
      using ws assms(2) by simp_all
    show "\<forall>j. offset \<le> j \<and> j < offset + int (length ?ws)
            \<longrightarrow> name @ str_int j \<notin> free_variables t"
      using assms(3) len by simp
    show "inj_on (\<lambda>x. x) (free_variables t)" by simp
    show "\<forall>w \<in> set ?ws. w = w" by simp
    show "\<forall>y \<in> free_variables t. y \<notin> set ?ws \<longrightarrow> y \<notin> set ?ws" by simp
    show "\<forall>y \<in> free_variables t. \<forall>j. offset \<le> j \<and> j < offset + int (length ?ws)
            \<longrightarrow> y \<noteq> name @ str_int j"
      using assms(3) len by auto
  qed
  then obtain r' where r': "inj_on r' (free_variables t)"
    "fst (alpha_loop ?ws t name offset) = rename r' t"
    by (auto simp: rename_id)
  from alpha_loop_offset[of ?ws t name offset] len
  have "snd (alpha_loop ?ws t name offset) = offset + int (card (free_variables t))" by simp
  with r' assms(2) show ?thesis
    by (cases "alpha_loop ?ws t name offset")
       (auto simp: alpha_conversion_def alpha_equivalent_def)
qed

lemma sorted_two_variables:
  "sorted_list_of_set (free_variables (App (Var ''a'') (Var ''p0''))) = [''a'', ''p0'']"
  by code_simp

text \<open>
  C8. The new offset is always the old one plus the number of free variables (lemma
  \<open>alpha_conversion_offset\<close>), and the returned term is alpha equivalent to the argument when
  none of the generated names occurs in it (lemma \<open>alpha_conversion_fresh\<close>). In general it is
  not: the loop substitutes one variable after the other in the same term, so a generated name
  \<^verbatim>\<open>p0\<close> that the term already contains is renamed again in a later round. With prefix \<^verbatim>\<open>p\<close>,
  offset 0 and the variable \<^verbatim>\<open>a\<close> visited before \<^verbatim>\<open>p0\<close>, the term a \<rightarrow> p0 becomes p1 \<rightarrow> p1.
\<close>

theorem alpha_conversion_capture:
  "alpha_conversion sorted_list_of_set (App (Var ''a'') (Var ''p0'')) ''p'' 0
     = Inr (App (Var ''p1'') (Var ''p1''), 2)
   \<and> \<not> alpha_equivalent (App (Var ''a'') (Var ''p0'')) (App (Var ''p1'') (Var ''p1''))"
proof
  show "alpha_conversion sorted_list_of_set (App (Var ''a'') (Var ''p0'')) ''p'' 0
     = Inr (App (Var ''p1'') (Var ''p1''), 2)"
    unfolding alpha_conversion_def sorted_two_variables
    by (simp add: str_int_def str_nat.simps digit_char_def)
  show "\<not> alpha_equivalent (App (Var ''a'') (Var ''p0'')) (App (Var ''p1'') (Var ''p1''))"
    by (auto simp: alpha_equivalent_def inj_on_def)
qed

section \<open>The fa\c{c}ade\<close>

lemma supported_operations_names:
  "map fst supported_operations =
     [''+'', ''-'', ''*'', ''/'', ''//'', ''%'', ''=='', ''!='', ''>'', ''<'', ''>='', ''<='',
      ''and'', ''or'', ''not'', ''len'', ''head'', ''last'', ''tail'', ''init'', ''concat'',
      ''map'', ''filter'', ''cons'']"
  by (simp add: supported_operations_def arithmetic_operations_def comparison_operations_def
      boolean_operations_def list_operations_def)

lemma enumerate_keys: "map (fst \<circ> (\<lambda>(i, name, sig). (name, f i name sig))) (List.enumerate n xs) = map fst xs"
  by (induction xs arbitrary: n) auto

lemma builtin_names_init: "fst ` set (builtin (st_functions state_init)) = set (map fst supported_operations)"
proof -
  have "map fst (builtin (st_functions state_init)) = map fst supported_operations"
    by (simp add: state_init_def replace_builtins_def functions_init_def enumerate_keys)
  then show ?thesis by (metis set_map)
qed

lemma get_function_init_unknown:
  assumes "name \<notin> set (map fst supported_operations)"
  shows "get_function (st_functions state_init) name = Inl KeyError"
proof -
  have "custom (st_functions state_init) = []"
    by (simp add: state_init_def replace_builtins_def functions_init_def)
  then have "get_all_functions (st_functions state_init) = builtin (st_functions state_init)"
    by (simp add: get_all_functions_def)
  with assms builtin_names_init have "map_of (get_all_functions (st_functions state_init)) name = None"
    by (simp add: map_of_eq_None_iff)
  then show ?thesis by (simp add: get_function_def lookup_def)
qed

text \<open>
  C7. The claim is that \<^verbatim>\<open>get_value\<close> fails with the unknown-name error (\<^verbatim>\<open>ValueError\<close>) for
  a name bound nowhere, in every mode. With a demonstration present it does (lemma
  \<open>get_value_unbound\<close>). In interactive mode there is no demonstration: the last \<^verbatim>\<open>try\<close> calls
  \<^verbatim>\<open>get_temp\<close> on \<^verbatim>\<open>None\<close>, and the \<^verbatim>\<open>AttributeError\<close> passes the handler for \<^verbatim>\<open>KeyError\<close>. On a new
  \<^verbatim>\<open>State\<close> the call \<^verbatim>\<open>get_value("nothing")\<close> raises \<^verbatim>\<open>AttributeError\<close>.
\<close>

theorem get_value_without_demonstration:
  "mode state_init = INTERACTIVE \<and> get_value state_init ''nothing'' = Inl AttributeError"
proof -
  have "''nothing'' \<notin> set (map fst supported_operations)"
    unfolding supported_operations_names by simp
  from get_function_init_unknown[OF this] show ?thesis
    by (simp add: get_value_def get_register_def get_list_def lookup_def
        state_init_def registers_init_def lists_init_def INTERACTIVE_def)
qed

lemma get_value_unbound:
  assumes "\<not> is_valid_register (st_registers S) name" "\<not> is_valid_list (st_lists S) name"
    "\<not> is_valid_function (st_functions S) name"
  shows "get_value S name =
           (case current_demonstration S of
              None \<Rightarrow> Inl AttributeError
            | Some D \<Rightarrow> if is_valid_temp D name then get_temp D name else Inl ValueError)"
proof -
  from assms have n: "map_of (reg_dict (st_registers S)) name = None"
    "map_of (list_dict (st_lists S)) name = None"
    "map_of (get_all_functions (st_functions S)) name = None"
    by (simp_all add: is_valid_register_def is_valid_list_def is_valid_function_def
        map_of_eq_None_iff)
  show ?thesis
  proof (cases "current_demonstration S")
    case None
    with n show ?thesis
      by (simp add: get_value_def get_register_def get_list_def get_function_def lookup_def)
  next
    case (Some D)
    show ?thesis
    proof (cases "is_valid_temp D name")
      case True
      then have "map_of (temps D) name \<noteq> None"
        by (simp add: is_valid_temp_def map_of_eq_None_iff)
      then obtain y where "map_of (temps D) name = Some y" by blast
      with n Some True show ?thesis
        by (cases y)
           (simp add: get_value_def get_register_def get_list_def get_function_def lookup_def
             get_temp_def)
    next
      case False
      then have "map_of (temps D) name = None"
        by (simp add: is_valid_temp_def map_of_eq_None_iff)
      with n Some False show ?thesis
        by (simp add: get_value_def get_register_def get_list_def get_function_def lookup_def
            get_temp_def)
    qed
  qed
qed

text \<open>
  C6. In demonstration mode, \<^verbatim>\<open>update_list\<close> on an existing list that is not among the inputs
  of the demonstration returns without error and leaves the state, and with it the stored value
  of the list, as it was.
\<close>

theorem update_list_in_demonstration:
  assumes "is_demonstration S" "current_demonstration S = Some D" "\<not> is_used D list_name"
    "is_valid_list (st_lists S) list_name"
  shows "update_list_st S list_name v = (Inr (), S)
       \<and> get_list (st_lists (snd (update_list_st S list_name v))) list_name
           = get_list (st_lists S) list_name"
proof -
  from assms(1) have "\<not> is_interactive S" "\<not> is_between S"
    by (simp_all add: is_demonstration_def is_interactive_def is_between_def
        DEMONSTRATION_def INTERACTIVE_def BETWEEN_def)
  with assms(1-3) have "update_list_st S list_name v = (Inr (), S)"
    by (simp add: update_list_st_def when_unused_def is_used_state_def check_demonstration_def)
  then show ?thesis by simp
qed

lemma state_restore_copy: "state_restore S' (state_copy S) = S"
  by (simp add: state_restore_def state_copy_def)

lemma restoring_error: "restoring (state_copy S) body = Some (Inl e, S') \<Longrightarrow> S' = S"
  by (auto simp: restoring_def state_restore_copy split: option.splits sum.splits prod.splits)

text \<open>
  C1. When \<^verbatim>\<open>apply\<close>, \<^verbatim>\<open>recurse\<close>, \<^verbatim>\<open>branch\<close> or \<^verbatim>\<open>ret\<close> raises, the state after the call is
  the state before it: registers, lists, functions, demonstration, mode, selection and the
  unique-id counter.
\<close>

theorem failed_calls_are_atomic:
  "(apply E S function_name is_variable = Some (Inl e, S') \<longrightarrow> S' = S)
   \<and> (recurse E S = Some (Inl e, S') \<longrightarrow> S' = S)
   \<and> (branch E S = Some (Inl e, S') \<longrightarrow> S' = S)
   \<and> (ret E S = Some (Inl e, S') \<longrightarrow> S' = S)"
proof (intro conjI impI)
  assume "apply E S function_name is_variable = Some (Inl e, S')"
  then show "S' = S"
    unfolding apply_def Let_def by (rule restoring_error)
next
  assume "recurse E S = Some (Inl e, S')"
  then show "S' = S"
    unfolding recurse_def Let_def
    by (cases "check_demonstration S") (auto dest: restoring_error)
next
  assume "branch E S = Some (Inl e, S')"
  then show "S' = S"
    unfolding branch_def Let_def
    by (cases "check_demonstration S") (auto dest: restoring_error)
next
  assume "ret E S = Some (Inl e, S')"
  then show "S' = S"
    unfolding ret_def Let_def
    by (cases "check_demonstration S") (auto dest: restoring_error)
qed

lemma same_shape_refl [simp]: "same_shape S S"
  by (simp add: same_shape_def)

lemma same_shape_trans: "same_shape S S1 \<Longrightarrow> same_shape S1 S2 \<Longrightarrow> same_shape S S2"
  by (simp add: same_shape_def)

lemma same_shape_invariant:
  "same_shape S S' \<Longrightarrow> demonstration_matches_mode S \<Longrightarrow> demonstration_matches_mode S'"
  by (auto simp: same_shape_def demonstration_matches_mode_def is_demonstration_def
      is_between_def is_interactive_def)

lemma same_shape_selected [simp]:
  "same_shape S (S\<lparr>selected := x\<rparr>)" "same_shape S (unselect_all S)"
  "same_shape S (delete_selected S n)"
  by (simp_all add: same_shape_def unselect_all_def delete_selected_def)

lemma same_shape_selected_left [simp]:
  "same_shape (unselect_all S) S' = same_shape S S'"
  "same_shape (delete_selected S n) S' = same_shape S S'"
  by (simp_all add: same_shape_def unselect_all_def delete_selected_def)

lemma on_registers_shape: "on_registers S f = (r, S') \<Longrightarrow> same_shape S S'"
  by (auto simp: on_registers_def same_shape_def split: prod.splits)

lemma on_lists_shape: "on_lists S f = (r, S') \<Longrightarrow> same_shape S S'"
  by (auto simp: on_lists_def same_shape_def split: prod.splits)

lemma on_demonstration_shape: "on_demonstration S f = (r, S') \<Longrightarrow> same_shape S S'"
  by (auto simp: on_demonstration_def same_shape_def split: prod.splits option.splits)

lemma when_unused_shape:
  assumes "when_unused S n f = (r, S')" "\<And>r S'. f S = (r, S') \<Longrightarrow> same_shape S S'"
  shows "same_shape S S'"
  using assms by (auto simp: when_unused_def split: sum.splits if_splits)

lemma create_register_st_shape: "create_register_st S v = (r, S') \<Longrightarrow> same_shape S S'"
  by (auto simp: create_register_st_def dest: on_registers_shape)

lemma create_list_st_shape: "create_list_st S v = (r, S') \<Longrightarrow> same_shape S S'"
  by (auto simp: create_list_st_def dest: on_lists_shape)

lemma delete_register_st_shape:
  assumes "delete_register_st S n = (r, S')"
  shows "same_shape S S'"
proof -
  let ?d = "\<lambda>S. case on_registers S (\<lambda>R. delete_register R n) of
                          (Inl e, S') \<Rightarrow> (Inl e, S')
                        | (Inr _, S') \<Rightarrow> (Inr (), delete_selected S' n)"
  have d: "same_shape S S'" if "?d S = (r, S')" for r S'
    using that
    by (auto split: prod.splits sum.splits dest!: on_registers_shape simp: same_shape_def delete_selected_def)
  from assms show ?thesis
    unfolding delete_register_st_def Let_def
    by (auto split: if_splits intro: d when_unused_shape[where f = ?d])
qed

lemma delete_list_st_shape:
  assumes "delete_list_st S n = (r, S')"
  shows "same_shape S S'"
proof -
  let ?d = "\<lambda>S. case on_lists S (\<lambda>L. delete_list L n) of
                          (Inl e, S') \<Rightarrow> (Inl e, S')
                        | (Inr _, S') \<Rightarrow> (Inr (), delete_selected S' n)"
  have d: "same_shape S S'" if "?d S = (r, S')" for r S'
    using that
    by (auto split: prod.splits sum.splits dest!: on_lists_shape simp: same_shape_def delete_selected_def)
  from assms show ?thesis
    unfolding delete_list_st_def Let_def
    by (auto split: if_splits intro: d when_unused_shape[where f = ?d])
qed

lemma update_register_st_shape: "update_register_st S n v = (r, S') \<Longrightarrow> same_shape S S'"
  unfolding update_register_st_def Let_def
  by (auto split: if_splits elim!: when_unused_shape dest: on_registers_shape)

lemma update_list_st_shape: "update_list_st S n v = (r, S') \<Longrightarrow> same_shape S S'"
  unfolding update_list_st_def
  by (auto split: if_splits elim!: when_unused_shape dest: on_lists_shape)

lemma append_to_list_st_shape: "append_to_list_st S n v = (r, S') \<Longrightarrow> same_shape S S'"
  unfolding append_to_list_st_def Let_def
  by (auto split: if_splits elim!: when_unused_shape dest: on_lists_shape)

lemma insert_list_element_st_shape: "insert_list_element_st S n v i = (r, S') \<Longrightarrow> same_shape S S'"
  unfolding insert_list_element_st_def Let_def
  by (auto split: if_splits elim!: when_unused_shape dest: on_lists_shape)

lemma update_list_element_st_shape: "update_list_element_st S n v i = (r, S') \<Longrightarrow> same_shape S S'"
  unfolding update_list_element_st_def Let_def
  by (auto split: if_splits elim!: when_unused_shape dest: on_lists_shape)

lemma delete_list_element_st_shape: "delete_list_element_st S n i = (r, S') \<Longrightarrow> same_shape S S'"
  unfolding delete_list_element_st_def Let_def
  by (auto split: if_splits elim!: when_unused_shape dest: on_lists_shape)

lemma delete_function_st_shape: "delete_function_st S n = (r, S') \<Longrightarrow> same_shape S S'"
  by (auto simp: delete_function_st_def same_shape_def split: if_splits prod.splits)

lemma select_shape: "select S n v = (r, S') \<Longrightarrow> same_shape S S'"
  by (auto simp: select_def select_interactive_between_def select_demonstration_def same_shape_def
      Let_def split: if_splits sum.splits option.splits)

lemma unselect_shape: "unselect S i = (r, S') \<Longrightarrow> same_shape S S'"
  by (auto simp: unselect_def same_shape_def split: sum.splits)

lemma add_to_function_context_shape:
  "add_to_function_context E S names = (r, S') \<Longrightarrow> same_shape S S'"
proof (induction names arbitrary: S r S')
  case Nil
  then show ?case by simp
next
  case (Cons a names)
  obtain name is_variable where a: "a = (name, is_variable)" by (cases a)
  show ?case
  proof (cases "current_demonstration S")
    case None
    with Cons.prems a show ?thesis by simp
  next
    case (Some D)
    let ?first = "if is_valid_temp D name then (Inr name, S)
                 else if is_variable then on_demonstration S (\<lambda>D. add_input D name)
                 else
                   (case get_value S name of
                      Inl e \<Rightarrow> (Inl e, S)
                    | Inr v \<Rightarrow> on_demonstration S (\<lambda>D. add_constant E D v))"
    obtain r1 S1 where f: "?first = (r1, S1)" by (cases ?first)
    then have s1: "same_shape S S1"
      by (auto split: if_splits sum.splits dest: on_demonstration_shape)
    show ?thesis
    proof (cases r1)
      case (Inl e)
      with Cons.prems a Some f s1 show ?thesis by simp
    next
      case (Inr context_name)
      obtain r2 S2 where g: "add_to_function_context E S1 names = (r2, S2)"
        by (cases "add_to_function_context E S1 names")
      from Cons.IH[OF g] s1 have "same_shape S S2" by (rule same_shape_trans[rotated])
      with Cons.prems a Some f Inr g show ?thesis
        by (cases r2) simp_all
    qed
  qed
qed

lemma evaluate_selected_state: "evaluate_selected E S n f = Some (r, S') \<Longrightarrow> S' = S"
  by (auto simp: evaluate_selected_def split: sum.splits option.splits)

lemma get_apply_result_shape: "get_apply_result E S n = Some (r, S') \<Longrightarrow> same_shape S S'"
  by (auto simp: get_apply_result_def get_unique_id_def same_shape_def
      split: if_splits option.splits sum.splits dest!: evaluate_selected_state)

lemma store_value_shape: "store_value S v = (r, S') \<Longrightarrow> same_shape S S'"
  by (auto simp: store_value_def split: sum.splits tm.splits
      dest: create_register_st_shape create_list_st_shape)

lemma restoring_shape:
  assumes "restoring (state_copy S) body = Some (r, S')"
    "\<And>r S'. body = Some (r, S') \<Longrightarrow> same_shape S S'"
  shows "same_shape S S'"
  using assms
  by (auto simp: restoring_def state_restore_copy split: option.splits sum.splits prod.splits)

lemma apply_interactive_between_shape:
  "apply_interactive_between E S n = Some (r, S') \<Longrightarrow> same_shape S S'"
  by (auto simp: apply_interactive_between_def split: sum.splits option.splits prod.splits
      dest!: get_apply_result_shape store_value_shape intro: same_shape_trans)

lemma apply_demonstration_shape:
  assumes "apply_demonstration E S n v = Some (r, S')"
  shows "same_shape S S'"
proof (cases "check_demonstration S")
  case (Inl e)
  with assms show ?thesis by (simp add: apply_demonstration_def)
next
  case (Inr u)
  show ?thesis
  proof (cases "get_apply_result E S n")
    case None
    with assms Inr show ?thesis by (simp add: apply_demonstration_def)
  next
    case (Some a)
    obtain r1 S1 where a: "a = (r1, S1)" by (cases a)
    with Some have s1: "same_shape S S1" by (auto dest: get_apply_result_shape)
    show ?thesis
    proof (cases r1)
      case (Inl e)
      with assms Inr Some a s1 show ?thesis by (simp add: apply_demonstration_def)
    next
      case result: (Inr result)
      obtain r2 S2 where c: "add_to_function_context E S1 (selected S1 @ [(n, v)]) = (r2, S2)"
        by (cases "add_to_function_context E S1 (selected S1 @ [(n, v)])")
      from add_to_function_context_shape[OF c] s1 have s2: "same_shape S S2"
        by (rule same_shape_trans[rotated])
      show ?thesis
      proof (cases r2)
        case (Inl e)
        with assms Inr Some a result c s2 show ?thesis by (simp add: apply_demonstration_def)
      next
        case names: (Inr names)
        obtain r3 S3 where d: "on_demonstration S2
            (\<lambda>D. add_function_application D (last names # butlast names) result) = (r3, S3)"
          by (cases "on_demonstration S2
            (\<lambda>D. add_function_application D (last names # butlast names) result)")
        from on_demonstration_shape[OF d] s2 have s3: "same_shape S S3"
          by (rule same_shape_trans[rotated])
        with assms Inr Some a result c names d show ?thesis
          by (cases r3) (auto simp: apply_demonstration_def same_shape_def unselect_all_def)
      qed
    qed
  qed
qed

lemma apply_shape:
  assumes "apply E S n v = Some (r, S')"
  shows "same_shape S S'"
  using assms unfolding apply_def Let_def
  by (rule restoring_shape)
     (auto split: if_splits dest: apply_interactive_between_shape apply_demonstration_shape)

lemma recurse_shape:
  assumes "recurse E S = Some (r, S')"
  shows "same_shape S S'"
proof (cases "check_demonstration S")
  case (Inl e)
  with assms show ?thesis by (simp add: recurse_def)
next
  case (Inr u)
  let ?body = "case add_to_function_context E S (selected S) of
                (Inl e, S1) \<Rightarrow> Some (Inl e, S1)
              | (Inr names, S1) \<Rightarrow>
                  (case get_apply_result E S1 ''self'' of
                     None \<Rightarrow> None
                   | Some (Inl e, S2) \<Rightarrow> Some (Inl e, S2)
                   | Some (Inr result, S2) \<Rightarrow>
                       (case on_demonstration S2
                               (\<lambda>D. add_recursive_application D (''self'' # names) result) of
                          (Inl e, S3) \<Rightarrow> Some (Inl e, S3)
                        | (Inr temp_name, S3) \<Rightarrow> Some (Inr temp_name, unselect_all S3)))"
  have b: "same_shape S S'" if "?body = Some (r, S')" for r S'
  proof -
    obtain r1 S1 where c: "add_to_function_context E S (selected S) = (r1, S1)"
      by (cases "add_to_function_context E S (selected S)")
    note s1 = add_to_function_context_shape[OF c]
    show ?thesis
    proof (cases r1)
      case (Inl e)
      with that c s1 show ?thesis by simp
    next
      case names: (Inr names)
      show ?thesis
      proof (cases "get_apply_result E S1 ''self''")
        case None
        with that c names show ?thesis by simp
      next
        case (Some a)
        obtain r2 S2 where a: "a = (r2, S2)" by (cases a)
        with Some s1 have s2: "same_shape S S2"
          by (auto dest!: get_apply_result_shape intro: same_shape_trans)
        show ?thesis
        proof (cases r2)
          case (Inl e)
          with that c names Some a s2 show ?thesis by simp
        next
          case result: (Inr result)
          obtain r3 S3 where d: "on_demonstration S2
              (\<lambda>D. add_recursive_application D (''self'' # names) result) = (r3, S3)"
            by (cases "on_demonstration S2
              (\<lambda>D. add_recursive_application D (''self'' # names) result)")
          from on_demonstration_shape[OF d] s2 have "same_shape S S3"
            by (rule same_shape_trans[rotated])
          with that c names Some a result d show ?thesis
            by (cases r3) (auto simp: same_shape_def unselect_all_def)
        qed
      qed
    qed
  qed
  from assms Inr show ?thesis
    unfolding recurse_def Let_def by (auto intro: restoring_shape[OF _ b])
qed

lemma branch_body_shape:
  assumes "branch_body E S = (r, S')"
  shows "same_shape S S'"
proof -
  obtain r1 S1 where c: "add_to_function_context E S (selected S) = (r1, S1)"
    by (cases "add_to_function_context E S (selected S)")
  note s1 = add_to_function_context_shape[OF c]
  have tail: "same_shape S S'"
    if "(case r1 of
           Inl e \<Rightarrow> (Inl e, S1)
         | Inr names \<Rightarrow>
             (case names of
                [] \<Rightarrow> (Inl IndexError, S1)
              | cond_name # _ \<Rightarrow>
                  (case on_demonstration S1 (\<lambda>D. branch_demo D cond_name b) of
                     (Inl e, S2) \<Rightarrow> (Inl e, S2)
                   | (Inr _, S2) \<Rightarrow> (Inr (), unselect_all S2)))) = (r, S')" for b
  proof (cases r1)
    case (Inl e)
    with that s1 show ?thesis by simp
  next
    case (Inr names)
    show ?thesis
    proof (cases names)
      case Nil
      with that Inr s1 show ?thesis by simp
    next
      case (Cons cond_name rest)
      obtain r2 S2 where d: "on_demonstration S1 (\<lambda>D. branch_demo D cond_name b) = (r2, S2)"
        by (cases "on_demonstration S1 (\<lambda>D. branch_demo D cond_name b)")
      from on_demonstration_shape[OF d] s1 have "same_shape S S2"
        by (rule same_shape_trans[rotated])
      with that Inr Cons d show ?thesis
        by (cases r2) (auto simp: same_shape_def unselect_all_def)
    qed
  qed
  show ?thesis
  proof (cases "length (selected S) \<noteq> 1 \<or> \<not> snd (selected S ! 0)")
    case True
    with assms show ?thesis by (auto simp: branch_body_def split: if_splits)
  next
    case False
    show ?thesis
    proof (cases "get_value S (fst (selected S ! 0))")
      case (Inl e)
      with assms False show ?thesis by (simp add: branch_body_def)
    next
      case v: (Inr cond_value)
      show ?thesis
      proof (cases "infer_value_type cond_value")
        case (Inl e)
        with assms False v show ?thesis by (simp add: branch_body_def)
      next
        case t: (Inr selected_type)
        show ?thesis
        proof (cases "selected_type = Bool")
          case True
          with assms False v t c show ?thesis
            by (intro tail[of "py_truth E cond_value"]) (simp add: branch_body_def)
        next
          case False2: False
          with assms False v t show ?thesis by (simp add: branch_body_def)
        qed
      qed
    qed
  qed
qed

lemma branch_shape:
  assumes "branch E S = Some (r, S')"
  shows "same_shape S S'"
proof (cases "check_demonstration S")
  case (Inl e)
  with assms show ?thesis by (simp add: branch_def)
next
  case (Inr u)
  with assms have "restoring (state_copy S) (Some (branch_body E S)) = Some (r, S')"
    by (simp add: branch_def)
  then show ?thesis
    by (rule restoring_shape) (auto dest: branch_body_shape)
qed

lemma ret_body_invariant:
  assumes "ret_body E S = Some (r, S')"
  shows "same_shape S S' \<or> demonstration_matches_mode S'"
proof (cases "length (selected S) \<noteq> 1")
  case True
  with assms show ?thesis by (simp add: ret_body_def)
next
  case False
  obtain r1 S1 where c: "add_to_function_context E S (selected S) = (r1, S1)"
    by (cases "add_to_function_context E S (selected S)")
  note s1 = add_to_function_context_shape[OF c]
  show ?thesis
  proof (cases r1)
    case (Inl e)
    with assms False c s1 show ?thesis by (simp add: ret_body_def)
  next
    case names: (Inr names)
    show ?thesis
    proof (cases names)
      case Nil
      with assms False c names s1 show ?thesis by (simp add: ret_body_def)
    next
      case (Cons ret_name rest)
      obtain r2 S2 where d: "on_demonstration S1 (\<lambda>D. ret_demo D ret_name) = (r2, S2)"
        by (cases "on_demonstration S1 (\<lambda>D. ret_demo D ret_name)")
      from on_demonstration_shape[OF d] s1 have s2: "same_shape S S2"
        by (rule same_shape_trans[rotated])
      show ?thesis
      proof (cases r2)
        case (Inl e)
        with assms False c names Cons d s2 show ?thesis by (simp add: ret_body_def)
      next
        case (Inr u)
        from s2 have s3: "same_shape S (unselect_all S2)"
          by (simp add: same_shape_def unselect_all_def)
        show ?thesis
        proof (cases "current_demonstration (unselect_all S2)")
          case None
          with assms False c names Cons d Inr s3 show ?thesis by (simp add: ret_body_def)
        next
          case (Some D)
          show ?thesis
          proof (cases "remaining_examples_demo D \<noteq> []")
            case True
            with assms False c names Cons d Inr Some
            have "S' = set_between (unselect_all S2\<lparr>current_demonstration := Some (prepare D)\<rparr>)"
              by (simp add: ret_body_def Let_def)
            then show ?thesis
              by (simp add: demonstration_matches_mode_def set_between_def is_demonstration_def
                  is_between_def is_interactive_def BETWEEN_def INTERACTIVE_def)
          next
            case no_remaining: False
            show ?thesis
            proof (cases "generate_function D (next_unique_id (unselect_all S2))")
              case None
              with assms False c names Cons d Inr Some no_remaining show ?thesis
                by (simp add: ret_body_def Let_def get_unique_id_def)
            next
              case g: (Some a)
              show ?thesis
              proof (cases a)
                case (Inl e)
                with assms False c names Cons d Inr Some no_remaining g s3 show ?thesis
                  by (auto simp: ret_body_def Let_def get_unique_id_def same_shape_def)
              next
                case f: (Inr f)
                with assms False c names Cons d Inr Some no_remaining g
                have "mode S' = INTERACTIVE \<and> current_demonstration S' = None"
                  by (auto simp: ret_body_def Let_def get_unique_id_def set_interactive_def
                      split: prod.splits)
                then show ?thesis
                  by (simp add: demonstration_matches_mode_def is_demonstration_def
                      is_between_def is_interactive_def BETWEEN_def INTERACTIVE_def
                      DEMONSTRATION_def)
              qed
            qed
          qed
        qed
      qed
    qed
  qed
qed

lemma ret_invariant:
  assumes "ret E S = Some (r, S')" "demonstration_matches_mode S"
  shows "demonstration_matches_mode S'"
proof (cases "check_demonstration S")
  case (Inl e)
  with assms show ?thesis by (simp add: ret_def)
next
  case (Inr u)
  with assms(1) have b: "restoring (state_copy S) (ret_body E S) = Some (r, S')"
    by (simp add: ret_def)
  show ?thesis
  proof (cases "ret_body E S")
    case None
    with b show ?thesis by (simp add: restoring_def)
  next
    case (Some a)
    obtain r1 S1 where a: "a = (r1, S1)" by (cases a)
    show ?thesis
    proof (cases r1)
      case (Inl e)
      with b Some a have "S' = S" by (simp add: restoring_def state_restore_copy)
      with assms(2) show ?thesis by simp
    next
      case (Inr x)
      with b Some a have "S' = S1" by (simp add: restoring_def)
      with ret_body_invariant[of E S r1 S1] Some a assms(2) show ?thesis
        by (auto dest: same_shape_invariant)
    qed
  qed
qed

lemma cont_invariant:
  assumes "cont S = (r, S')" "demonstration_matches_mode S"
  shows "demonstration_matches_mode S'"
  using assms
  by (auto simp: cont_def check_between_def set_demonstration_def demonstration_matches_mode_def
      is_between_def is_demonstration_def is_interactive_def BETWEEN_def DEMONSTRATION_def
      INTERACTIVE_def split: if_splits)

lemma create_function_invariant:
  assumes "create_function S = (r, S')" "demonstration_matches_mode S"
  shows "demonstration_matches_mode S'"
  using assms
  by (auto simp: create_function_def set_demonstration_def demonstration_matches_mode_def
      is_between_def is_demonstration_def is_interactive_def BETWEEN_def DEMONSTRATION_def
      INTERACTIVE_def split: if_splits)

lemma outcome_eq: "outcome t = Some (r, S') \<Longrightarrow> \<exists>x. t = (x, S')"
  by (auto simp: outcome_def split: prod.splits sum.splits)

lemma outcome_partial_eq: "outcome_partial t = Some (r, S') \<Longrightarrow> \<exists>x. t = Some (x, S')"
  by (auto simp: outcome_partial_def dest: outcome_eq split: option.splits)

lemma run_invariant:
  assumes "run E c S = Some (r, S')" "demonstration_matches_mode S"
  shows "demonstration_matches_mode S'"
proof (cases c)
  case (Create_register v)
  with assms show ?thesis
    by (auto dest!: outcome_eq create_register_st_shape intro: same_shape_invariant)
next
  case (Delete_register n)
  with assms show ?thesis
    by (auto dest!: outcome_eq delete_register_st_shape intro: same_shape_invariant)
next
  case (Update_register n v)
  with assms show ?thesis
    by (auto dest!: outcome_eq update_register_st_shape intro: same_shape_invariant)
next
  case (Create_list v)
  with assms show ?thesis
    by (auto dest!: outcome_eq create_list_st_shape intro: same_shape_invariant)
next
  case (Update_list n v)
  with assms show ?thesis
    by (auto dest!: outcome_eq update_list_st_shape intro: same_shape_invariant)
next
  case (Delete_list n)
  with assms show ?thesis
    by (auto dest!: outcome_eq delete_list_st_shape intro: same_shape_invariant)
next
  case (Append_to_list n v)
  with assms show ?thesis
    by (auto dest!: outcome_eq append_to_list_st_shape intro: same_shape_invariant)
next
  case (Insert_list_element n v i)
  with assms show ?thesis
    by (auto dest!: outcome_eq insert_list_element_st_shape intro: same_shape_invariant)
next
  case (Update_list_element n v i)
  with assms show ?thesis
    by (auto dest!: outcome_eq update_list_element_st_shape intro: same_shape_invariant)
next
  case (Delete_list_element n i)
  with assms show ?thesis
    by (auto dest!: outcome_eq delete_list_element_st_shape intro: same_shape_invariant)
next
  case Create_function
  with assms show ?thesis
    by (auto dest!: outcome_eq intro: create_function_invariant)
next
  case (Delete_function n)
  with assms show ?thesis
    by (auto dest!: outcome_eq delete_function_st_shape intro: same_shape_invariant)
next
  case (Select n v)
  with assms show ?thesis
    by (auto dest!: outcome_eq select_shape intro: same_shape_invariant)
next
  case (Unselect i)
  with assms show ?thesis
    by (auto dest!: outcome_eq unselect_shape intro: same_shape_invariant)
next
  case Unselect_all
  with assms show ?thesis
    by (auto intro: same_shape_invariant[of S])
next
  case (Apply n v)
  with assms show ?thesis
    by (auto dest!: outcome_partial_eq apply_shape intro: same_shape_invariant)
next
  case Recurse
  with assms show ?thesis
    by (auto dest!: outcome_partial_eq recurse_shape intro: same_shape_invariant)
next
  case Branch
  with assms show ?thesis
    by (auto dest!: outcome_partial_eq branch_shape intro: same_shape_invariant)
next
  case Ret
  with assms show ?thesis
    by (auto dest!: outcome_partial_eq intro: ret_invariant)
next
  case Cont
  with assms show ?thesis
    by (auto dest!: outcome_eq intro: cont_invariant)
qed

lemma state_init_invariant: "demonstration_matches_mode state_init"
  by (simp add: demonstration_matches_mode_def state_init_def is_demonstration_def
      is_between_def is_interactive_def BETWEEN_def DEMONSTRATION_def INTERACTIVE_def)

lemma reachable_invariant: "reachable E S \<Longrightarrow> demonstration_matches_mode S"
  by (induction rule: reachable.induct) (auto intro: state_init_invariant run_invariant)

text \<open>
  C10. In every state that calls of the public methods produce from a new \<^verbatim>\<open>State\<close>, the
  demonstration is present exactly when the mode is demonstration or between, and absent
  exactly when the mode is interactive; and every call, also one that raises and restores its
  snapshot, preserves this.
\<close>

theorem demonstration_present_iff_mode:
  "(reachable E S \<longrightarrow> demonstration_matches_mode S)
   \<and> (demonstration_matches_mode S0 \<and> run E c S0 = Some (r, S1)
        \<longrightarrow> demonstration_matches_mode S1)"
  by (auto intro: reachable_invariant run_invariant)

lemma state_init_fields:
  "st_registers state_init = registers_init"
  "st_lists state_init = lists_init"
  "current_demonstration state_init = None"
  "mode state_init = 0"
  "selected state_init = []"
  by (simp_all add: state_init_def)

lemma str_int_small: "str_int 0 = ''0''" "str_int 1 = ''1''"
  by (simp_all add: str_int_def str_nat.simps digit_char_def)

lemma step_register:
  "create_register_st state_init (VInt 3) =
     (Inr ''r0'', state_init\<lparr>st_registers := \<lparr>reg_dict = [(''r0'', VInt 3)], reg_next_id = 1\<rparr>\<rparr>)"
  by (simp add: create_register_st_def on_registers_def create_register_def check_value_type_def
      state_init_fields registers_init_def str_int_small Let_def)

lemma step_list:
  "create_list_st (state_init\<lparr>st_registers := R\<rparr>) (VList [VInt 1]) =
     (Inr ''l0'', state_init\<lparr>st_registers := R,
        st_lists := \<lparr>list_dict = [(''l0'', [VInt 1])], list_next_id = 1\<rparr>\<rparr>)"
  by (simp add: create_list_st_def on_lists_def create_list_def check_list_elements_def
      check_list_type_def all_equal_def state_init_fields lists_init_def str_int_small Let_def)

lemma step_function:
  "create_function (state_init\<lparr>st_registers := R, st_lists := L\<rparr>) =
     (Inr (), state_init\<lparr>st_registers := R, st_lists := L, mode := 1,
        current_demonstration := Some demonstration_init\<rparr>)"
  by (simp add: create_function_def is_interactive_def INTERACTIVE_def DEMONSTRATION_def
      set_demonstration_def state_init_fields)

lemma example_state_0_eq:
  "example_state_0 =
     state_init\<lparr>st_registers := \<lparr>reg_dict = [(''r0'', VInt 3)], reg_next_id = 1\<rparr>,
       st_lists := \<lparr>list_dict = [(''l0'', [VInt 1])], list_next_id = 1\<rparr>,
       mode := 1,
       current_demonstration := Some demonstration_init\<rparr>"
  by (simp add: example_state_0_def step_register step_list step_function)


lemma example_state_0_fields:
  "st_registers example_state_0 = \<lparr>reg_dict = [(''r0'', VInt 3)], reg_next_id = 1\<rparr>"
  "st_lists example_state_0 = \<lparr>list_dict = [(''l0'', [VInt 1])], list_next_id = 1\<rparr>"
  "current_demonstration example_state_0 = Some demonstration_init"
  "mode example_state_0 = 1"
  "selected example_state_0 = []"
  "st_functions example_state_0 = st_functions state_init"
  "next_unique_id example_state_0 = next_unique_id state_init"
  by (simp_all add: example_state_0_eq state_init_fields)

lemma example_state_eq:
  "example_state = example_state_0\<lparr>selected := [(''r0'', True)]\<rparr>"
  by (simp add: example_state_def select_def current_mode_def
      is_interactive_def is_demonstration_def is_between_def INTERACTIVE_def DEMONSTRATION_def
      BETWEEN_def select_demonstration_def check_demonstration_def is_valid_name_state_def
      is_valid_register_def example_state_0_fields demonstration_init_def is_valid_temp_def)

theorem update_list_in_demonstration_witness:
  "is_demonstration example_state_0
   \<and> current_demonstration example_state_0 = Some demonstration_init
   \<and> \<not> is_used demonstration_init ''l0''
   \<and> is_valid_list (st_lists example_state_0) ''l0''
   \<and> update_list_st example_state_0 ''l0'' (VList [VInt 2]) = (Inr (), example_state_0)
   \<and> get_list (st_lists (snd (update_list_st example_state_0 ''l0'' (VList [VInt 2])))) ''l0''
       = Inr [VInt 1]"
proof -
  have h: "is_demonstration example_state_0"
    "current_demonstration example_state_0 = Some demonstration_init"
    "\<not> is_used demonstration_init ''l0''"
    "is_valid_list (st_lists example_state_0) ''l0''"
    by (simp_all add: is_demonstration_def DEMONSTRATION_def example_state_0_fields is_used_def
        demonstration_init_def is_valid_list_def)
  have g: "get_list (st_lists example_state_0) ''l0'' = Inr [VInt 1]"
    by (simp add: get_list_def lookup_def example_state_0_fields)
  from update_list_in_demonstration[OF h, of "VList [VInt 2]"] h g show ?thesis by simp
qed

lemma restoring_raise: "restoring (state_copy S) (Some (Inl e, S1)) = Some (Inl e, S)"
  by (simp add: restoring_def state_restore_copy)

lemma example_state_fields:
  "st_registers example_state = \<lparr>reg_dict = [(''r0'', VInt 3)], reg_next_id = 1\<rparr>"
  "current_demonstration example_state = Some demonstration_init"
  "mode example_state = 1"
  "selected example_state = [(''r0'', True)]"
  by (simp_all add: example_state_eq example_state_0_fields)

lemma example_modes:
  "is_demonstration example_state" "is_demonstration example_state_0"
  "current_mode example_state = ''DEMONSTRATION''"
  "current_mode example_state_0 = ''DEMONSTRATION''"
  by (simp_all add: current_mode_def is_demonstration_def is_interactive_def DEMONSTRATION_def
      INTERACTIVE_def example_state_fields example_state_0_fields)

lemma get_value_r0: "get_value (example_state\<lparr>next_unique_id := u\<rparr>) ''r0'' = Inr (VInt 3)"
  "get_value example_state ''r0'' = Inr (VInt 3)"
  by (simp_all add: get_value_def get_register_def lookup_def example_state_fields)

lemma generate_empty:
  "generate_function demonstration_init u
     = Some (Inr (CustomFunction (Var ''w_out'') (Tree [] [] None None) [] u))"
proof -
  have "unify [(Var ''w_sig'', Var ''w_out'')] = Some (Inr [(Var ''w_sig'', Var ''w_out'')])"
    by (subst unify.simps) (simp add: apply_rule_def check_equation_def)
  then show ?thesis
    by (simp add: generate_function_def demonstration_init_def ABSTRACT_TYPE_OUTPUT_def
        ABSTRACT_TYPE_SIG_def)
qed

lemma apply_self_fails:
  "apply example_env example_state ''self'' False = Some (Inl ValueError, example_state)"
proof -
  have "get_apply_result example_env example_state ''self''
          = Some (Inl ValueError, example_state\<lparr>next_unique_id := next_unique_id example_state + 1\<rparr>)"
    by (simp add: get_apply_result_def example_state_fields get_unique_id_def generate_empty
        evaluate_selected_def get_value_r0 example_env_def apply_handlers_def)
  then have "apply_demonstration example_env example_state ''self'' False
          = Some (Inl ValueError, example_state\<lparr>next_unique_id := next_unique_id example_state + 1\<rparr>)"
    by (simp add: apply_demonstration_def check_demonstration_def example_modes)
  then show ?thesis
    by (simp add: apply_def example_modes restoring_raise)
qed

lemma branch_fails:
  "branch example_env example_state = Some (Inl TypeError, example_state)"
proof -
  have "branch_body example_env example_state = (Inl TypeError, example_state)"
    by (simp add: branch_body_def example_state_fields get_value_r0)
  then show ?thesis
    by (simp add: branch_def check_demonstration_def example_modes restoring_raise)
qed

lemma ret_fails:
  "ret example_env example_state_0 = Some (Inl ValueError, example_state_0)"
proof -
  have "ret_body example_env example_state_0 = Some (Inl ValueError, example_state_0)"
    by (simp add: ret_body_def example_state_0_fields)
  then show ?thesis
    by (simp add: ret_def check_demonstration_def example_modes restoring_raise)
qed

lemma add_input_r0:
  "add_input demonstration_init ''r0'' =
     (Inr ''in0'',
      demonstration_init\<lparr>inputs := [(''r0'', ''in0'')], next_id_inputs := 1,
        types := [(''in0'', Var ''w0'')], next_id_type := 1\<rparr>)"
  by (simp add: add_input_def demonstration_init_def Let_def str_int_small
      ABSTRACT_TYPE_PREFIX_def)

lemma generate_one_input:
  "generate_function
     (demonstration_init\<lparr>inputs := [(''r0'', ''in0'')], next_id_inputs := 1,
        types := [(''in0'', Var ''w0'')], next_id_type := 1\<rparr>) u
     = Some (Inr (CustomFunction (App (Var ''w0'') (Var ''w_out'')) (Tree [] [] None None) [] u))"
proof -
  have "unify [(Var ''w_sig'', App (Var ''w0'') (Var ''w_out''))]
          = Some (Inr [(Var ''w_sig'', App (Var ''w0'') (Var ''w_out''))])"
    by (subst unify.simps) (simp add: apply_rule_def check_equation_def)
  then show ?thesis
    by (simp add: generate_function_def demonstration_init_def ABSTRACT_TYPE_OUTPUT_def
        ABSTRACT_TYPE_SIG_def lookup_def)
qed

lemma recurse_fails:
  "recurse example_env example_state = Some (Inl ValueError, example_state)"
proof -
  let ?D = "demonstration_init\<lparr>inputs := [(''r0'', ''in0'')], next_id_inputs := 1,
        types := [(''in0'', Var ''w0'')], next_id_type := 1\<rparr>"
  let ?S1 = "example_state\<lparr>current_demonstration := Some ?D\<rparr>"
  have c: "add_to_function_context example_env example_state [(''r0'', True)]
             = (Inr [''in0''], ?S1)"
    by (simp add: example_state_fields is_valid_temp_def demonstration_init_def
        on_demonstration_def add_input_r0[unfolded demonstration_init_def])
  have v: "get_value (?S1\<lparr>next_unique_id := u\<rparr>) ''r0'' = Inr (VInt 3)" for u
    by (simp add: get_value_def get_register_def lookup_def example_state_fields)
  have "get_apply_result example_env ?S1 ''self''
          = Some (Inl ValueError, ?S1\<lparr>next_unique_id := next_unique_id ?S1 + 1\<rparr>)"
    by (simp add: get_apply_result_def get_unique_id_def generate_one_input
        evaluate_selected_def example_state_fields v example_env_def apply_handlers_def)
  with c show ?thesis
    by (simp add: recurse_def check_demonstration_def example_modes example_state_fields
        restoring_raise)
qed

theorem failed_calls_are_atomic_witness:
  "apply example_env example_state ''self'' False = Some (Inl ValueError, example_state)
   \<and> recurse example_env example_state = Some (Inl ValueError, example_state)
   \<and> branch example_env example_state = Some (Inl TypeError, example_state)
   \<and> ret example_env example_state_0 = Some (Inl ValueError, example_state_0)"
  using failed_calls_are_atomic[of example_env example_state "''self''" False ValueError example_state]
    failed_calls_are_atomic[of example_env example_state "''self''" False TypeError example_state]
    failed_calls_are_atomic[of example_env example_state_0 "''self''" False ValueError example_state_0]
    apply_self_fails recurse_fails branch_fails ret_fails
  by simp

lemma run_steps:
  "run E (Create_register (VInt 3)) state_init
     = Some (None, state_init\<lparr>st_registers := \<lparr>reg_dict = [(''r0'', VInt 3)], reg_next_id = 1\<rparr>\<rparr>)"
  "run E (Create_list (VList [VInt 1])) (state_init\<lparr>st_registers := R\<rparr>)
     = Some (None, state_init\<lparr>st_registers := R,
        st_lists := \<lparr>list_dict = [(''l0'', [VInt 1])], list_next_id = 1\<rparr>\<rparr>)"
  "run E Create_function (state_init\<lparr>st_registers := R, st_lists := L\<rparr>)
     = Some (None, state_init\<lparr>st_registers := R, st_lists := L, mode := 1,
        current_demonstration := Some demonstration_init\<rparr>)"
  by (simp_all add: outcome_def step_register step_list step_function)

lemma reachable_example: "reachable E example_state_0"
  unfolding example_state_0_eq
  by (rule reachable_run[OF reachable_run[OF reachable_run[OF reachable_init]]])
     (rule run_steps)+

theorem demonstration_present_iff_mode_witness:
  "reachable example_env example_state_0
   \<and> demonstration_matches_mode example_state_0
   \<and> run example_env Cont example_state_0 = Some (Some ModeError, example_state_0)
   \<and> run example_env (Select ''r0'' True) example_state_0 = Some (None, example_state)
   \<and> demonstration_matches_mode example_state"
proof -
  have r: "reachable example_env example_state_0" by (rule reachable_example)
  have c: "run example_env Cont example_state_0 = Some (Some ModeError, example_state_0)"
    by (simp add: outcome_def cont_def check_between_def is_between_def BETWEEN_def
        example_state_0_fields)
  have s: "run example_env (Select ''r0'' True) example_state_0 = Some (None, example_state)"
    by (simp add: outcome_def example_state_def select_def current_mode_def
      is_interactive_def is_demonstration_def is_between_def INTERACTIVE_def DEMONSTRATION_def
      BETWEEN_def select_demonstration_def check_demonstration_def is_valid_name_state_def
      is_valid_register_def example_state_0_fields demonstration_init_def is_valid_temp_def)
  from demonstration_present_iff_mode
         [of example_env example_state_0 example_state_0 "Select ''r0'' True" None example_state]
       r c s
  show ?thesis by simp
qed


section \<open>Sharing of list objects\<close>

lemma str_int_zero_digit: "str_int 0 = ''0''"
  by (simp add: str_int_def str_nat.simps digit_char_def)

lemma create_list_h_copies:
  assumes "create_list_h h L r = (Inr list_name, h', L')" "r < length h"
  shows "stored_value (caller_append h' r v) L' list_name = Inr (h ! r)"
proof -
  from assms(1) have h': "h' = h @ [h ! r]"
    and L': "hl_dict L' = AList.update list_name (length h) (hl_dict L)"
    by (auto simp: create_list_h_def deepcopy_def Let_def split: sum.splits)
  from L' have "map_of (hl_dict L') list_name = Some (length h)"
    by (simp add: update_conv')
  with h' assms(2) show ?thesis
    by (simp add: stored_value_def get_list_h_def lookup_def caller_append_def nth_append)
qed

text \<open>
  C9. The claim is that list values are deep-copied on insert, store and return, so that no
  caller can change what the store yields. \<^verbatim>\<open>create_list\<close> and \<^verbatim>\<open>update_list\<close> do copy (lemma
  \<open>create_list_h_copies\<close>: appending to the list that was passed in leaves the stored value as
  it was). \<^verbatim>\<open>get_list\<close> returns the stored list object itself: after \<^verbatim>\<open>create_list([1, 2])\<close>, a
  caller that appends 3 to the list it got from \<^verbatim>\<open>get_list("l0")\<close> makes the store yield
  \<^verbatim>\<open>[1, 2, 3]\<close>.
\<close>

theorem get_list_returns_reference:
  "create_list_h [[VInt 1, VInt 2]] heap_lists_init 0
     = (Inr ''l0'', [[VInt 1, VInt 2], [VInt 1, VInt 2]], \<lparr>hl_dict = [(''l0'', 1)], hl_next_id = 1\<rparr>)
   \<and> get_list_h \<lparr>hl_dict = [(''l0'', 1)], hl_next_id = 1\<rparr> ''l0'' = Inr 1
   \<and> stored_value (caller_append [[VInt 1, VInt 2], [VInt 1, VInt 2]] 1 (VInt 3))
         \<lparr>hl_dict = [(''l0'', 1)], hl_next_id = 1\<rparr> ''l0''
       = Inr [VInt 1, VInt 2, VInt 3]
   \<and> stored_value (caller_append [[VInt 1, VInt 2], [VInt 1, VInt 2]] 0 (VInt 3))
         \<lparr>hl_dict = [(''l0'', 1)], hl_next_id = 1\<rparr> ''l0''
       = Inr [VInt 1, VInt 2]"
  by (simp add: create_list_h_def heap_lists_init_def deepcopy_def check_list_elements_def
      check_list_type_def all_equal_def str_int_zero_digit get_list_h_def lookup_def stored_value_def
      caller_append_def Let_def)


end

